theory Spec2Isabelle
  imports Main "HOL-Library.Word" "HOL-Library.Signed_Division"
begin

unbundle bit_operations_syntax

section \<open>The ec2tagger processor: data model\<close>

text \<open>
  The plugin stamps every metric with tags of the EC2 instance it runs on.  The model
  follows the Go source function by function.  A Go \<^verbatim>\<open>map[string]string\<close> is a partial
  function from keys to values; a \<^verbatim>\<open>time.Duration\<close> is a signed 64-bit count of
  nanoseconds, kept as a 64-bit word and compared with the signed orders; an \<^verbatim>\<open>error\<close>
  result is the left summand of a sum; a panic and \<^verbatim>\<open>log.Fatalf\<close> are left summands of
  their own.
\<close>

subsection \<open>Constants\<close>

definition ec2InstanceTagKeyASG :: string where
  "ec2InstanceTagKeyASG = ''aws:autoscaling:groupName''"

definition cwDimensionASG :: string where
  "cwDimensionASG = ''AutoScalingGroupName''"

definition mdKeyInstanceId :: string where
  "mdKeyInstanceId = ''InstanceId''"

definition mdKeyImageId :: string where
  "mdKeyImageId = ''ImageId''"

definition mdKeyInstaneType :: string where
  "mdKeyInstaneType = ''InstanceType''"

type_synonym Duration = "64 word"

definition Second :: Duration where
  "Second = 1000000000"

definition defaultRefreshInterval :: Duration where
  "defaultRefreshInterval = 180 * Second"

subsection \<open>Errors, panics and fatal exits\<close>

datatype error =
    ServiceError string
  | NotOnEC2
  | IdentityDocumentError error
  | MetadataStartError error
  | TagsStartError error

datatype panic = IntegerDivideByZero | NonPositiveTickerInterval | CloseOfClosedChannel

datatype fatal = UnsupportedMetadataKey string

subsection \<open>The collaborators: identity service and tag service\<close>

record EC2InstanceIdentityDocument =
  InstanceID :: string
  InstanceType :: string
  ImageID :: string
  Region :: string

text \<open>
  The interface \<^verbatim>\<open>ec2metadataAPI\<close>: \<^verbatim>\<open>Available()\<close> and
  \<^verbatim>\<open>GetInstanceIdentityDocument()\<close>, the latter with its error as the left summand.
\<close>

record ec2metadataAPI =
  Available :: bool
  GetInstanceIdentityDocument :: "error + EC2InstanceIdentityDocument"

record Filter =
  Name :: string
  Values :: "string list"

record DescribeTagsInput =
  Filters :: "Filter list"
  NextToken :: "string option"

text \<open>
  A tag as the service describes it.  The SDK hands out both fields as pointers and fills
  both for every tag it returns; the model has no tag with a nil key or value.
\<close>

record TagDescription =
  Key :: string
  Value :: string

text \<open>
  The SDK's output struct; its pagination field is called \<^verbatim>\<open>NextToken\<close> as well and is
  renamed here because a field name can be declared once.
\<close>

record DescribeTagsOutput =
  Tags :: "TagDescription list"
  ResultNextToken :: "string option"

type_synonym ec2API = "DescribeTagsInput \<Rightarrow> error + DescribeTagsOutput"

record CredentialConfig =
  credRegion :: string
  credAccessKey :: string
  credSecretKey :: string
  credRoleARN :: string
  credProfile :: string
  credFilename :: string
  credToken :: string

text \<open>
  The interface \<^verbatim>\<open>ec2APIProvider\<close>.  \<^verbatim>\<open>newEC2\<close> receives the credential configuration
  built from the Tagger; \<^verbatim>\<open>newEC2Metadata\<close> always receives the empty configuration and is
  therefore a value.
\<close>

record ec2APIProvider =
  newEC2 :: "CredentialConfig \<Rightarrow> ec2API"
  newEC2Metadata :: ec2metadataAPI

subsection \<open>The Tagger\<close>

type_synonym tagmap = "string \<rightharpoonup> string"

text \<open>
  A channel of \<^verbatim>\<open>struct{}\<close> on which nothing is ever sent is either open or closed; the nil
  channel is \<open>None\<close>.
\<close>

datatype chan = ChanOpen | ChanClosed

text \<open>
  The struct \<^verbatim>\<open>Tagger\<close>.  The field \<^verbatim>\<open>done\<close> is called \<open>doneChan\<close>, the field
  \<^verbatim>\<open>ec2APIProvider\<close> is called \<open>apiProvider\<close>.  The read/write lock has no field: every
  function of the model runs as one atomic step, which is what the lock grants to the
  reads and writes of the cache.
\<close>

record Tagger =
  RefreshInterval :: Duration
  EC2MetadataTags :: "string list"
  EC2InstanceTagKeys :: "string list"
  AccessKey :: string
  SecretKey :: string
  RoleARN :: string
  Profile :: string
  Filename :: string
  Token :: string
  apiProvider :: ec2APIProvider
  instanceId :: string
  instanceType :: string
  imageId :: string
  region :: string
  ec2TagsCache :: tagmap
  doneChan :: "chan option"

subsection \<open>Metrics\<close>

record Metric =
  metricName :: string
  metricTags :: tagmap

text \<open>
  Modelled from the spec: the method \<^verbatim>\<open>AddTag\<close> of \<^verbatim>\<open>telegraf.Metric\<close>, whose
  implementation is not among the sources.  The spec calls a tag a key/value label
  attached to a record and has \<^verbatim>\<open>apply\<close> put each pair on the record as a tag; tag
  keys of a record are unique, so adding a pair sets the value under its key.
\<close>

definition AddTag :: "Metric \<Rightarrow> string \<Rightarrow> string \<Rightarrow> Metric" where
  "AddTag metric k v = metric\<lparr>metricTags := (metricTags metric)(k \<mapsto> v)\<rparr>"

section \<open>The functions of the plugin\<close>

subsection \<open>hostJitter\<close>

text \<open>
  \<^verbatim>\<open>fnv.New64()\<close> of the Go standard library is the 64-bit FNV-1 hash: starting from the
  offset basis, every byte multiplies the state by the prime and is then xor-ed in.
\<close>

definition offset64 :: "64 word" where
  "offset64 = 14695981039346656037"

definition prime64 :: "64 word" where
  "prime64 = 1099511628211"

definition fnv64Write :: "64 word \<Rightarrow> string \<Rightarrow> 64 word" where
  "fnv64Write s data = foldl (\<lambda>hash c. (hash * prime64) XOR of_char c) s data"

text \<open>
  \<^verbatim>\<open>hostJitter(max)\<close>, with \<open>mx\<close> for the parameter \<^verbatim>\<open>max\<close>.  The host name read from
  the operating system is the parameter \<open>hostname\<close> (the empty string when
  \<^verbatim>\<open>os.Hostname\<close> fails, since the error is dropped).  Go's \<^verbatim>\<open>%\<close> on signed integers
  truncates towards zero (\<open>smod\<close>) and panics on a zero divisor.
\<close>

definition hostJitter :: "string \<Rightarrow> Duration \<Rightarrow> panic + Duration" where
  "hostJitter hostname mx =
     (let hash = fnv64Write offset64 hostname;
          shifted = drop_bit 1 hash
      in if mx = 0 then Inl IntegerDivideByZero
         else Inr (word_of_int (sint shifted smod sint mx)))"

subsection \<open>getEC2Metadata and the three predicates\<close>

definition getEC2Metadata :: "Tagger \<Rightarrow> error option \<times> Tagger" where
  "getEC2Metadata t =
     (let md = newEC2Metadata (apiProvider t)
      in if \<not> Available md then (Some NotOnEC2, t)
         else (case GetInstanceIdentityDocument md of
                 Inl err \<Rightarrow> (Some (IdentityDocumentError err), t)
               | Inr doc \<Rightarrow>
                   (None, t\<lparr>instanceId := InstanceID doc,
                             instanceType := InstanceType doc,
                             imageId := ImageID doc,
                             region := Region doc\<rparr>)))"

definition isGettingEC2Tags :: "Tagger \<Rightarrow> bool" where
  "isGettingEC2Tags t = (length (EC2InstanceTagKeys t) > 0)"

definition isGettingAllEC2Tags :: "Tagger \<Rightarrow> bool" where
  "isGettingAllEC2Tags t =
     (length (EC2InstanceTagKeys t) = 1 \<and> EC2InstanceTagKeys t ! 0 = ''*'')"

definition isRefreshingEC2Tags :: "Tagger \<Rightarrow> bool" where
  "isRefreshingEC2Tags t = (0 <s RefreshInterval t)"

subsection \<open>getEC2TagsFetchFunc and the closure it returns\<close>

text \<open>
  The loop \<^verbatim>\<open>for i, key := range t.EC2InstanceTagKeys\<close> visits the indices in order and
  overwrites the element in place where it is the CloudWatch dimension name.
\<close>

definition translateKeys :: "string list \<Rightarrow> string list" where
  "translateKeys keys =
     fold (\<lambda>i ks. if ks ! i = cwDimensionASG then ks[i := ec2InstanceTagKeyASG] else ks)
          [0..<length keys] keys"

text \<open>
  The closure returned by \<^verbatim>\<open>getEC2TagsFetchFunc\<close> captures the client and the filter
  list; the function returns both, next to the Tagger whose key list it has rewritten.
  \<open>fetchFunc\<close> below is the body of the closure.
\<close>

definition getEC2TagsFetchFunc :: "Tagger \<Rightarrow> Tagger \<times> ec2API \<times> Filter list" where
  "getEC2TagsFetchFunc t =
     (let ec2CredentialConfig =
            \<lparr>credRegion = region t, credAccessKey = AccessKey t, credSecretKey = SecretKey t,
             credRoleARN = RoleARN t, credProfile = Profile t, credFilename = Filename t,
             credToken = Token t\<rparr>;
          ec2Client = newEC2 (apiProvider t) ec2CredentialConfig;
          tagFilters =
            [\<lparr>Name = ''resource-type'', Values = [''instance'']\<rparr>,
             \<lparr>Name = ''resource-id'', Values = [instanceId t]\<rparr>]
      in if \<not> isGettingAllEC2Tags t
         then (let t' = t\<lparr>EC2InstanceTagKeys := translateKeys (EC2InstanceTagKeys t)\<rparr>
               in (t', ec2Client,
                   tagFilters @ [\<lparr>Name = ''key'', Values = EC2InstanceTagKeys t'\<rparr>]))
         else (t, ec2Client, tagFilters))"

text \<open>The body of the loop over \<^verbatim>\<open>result.Tags\<close>: rename the key, then store.\<close>

definition storeTag :: "tagmap \<Rightarrow> TagDescription \<Rightarrow> tagmap" where
  "storeTag tags tag =
     (let key = Key tag;
          key = (if key = ec2InstanceTagKeyASG then cwDimensionASG else key)
      in tags(key \<mapsto> Value tag))"

text \<open>
  The pagination loop.  It runs for as long as the service hands out a next token, so it
  need not return: \<open>None\<close> is the run that never leaves the loop.
\<close>

partial_function (option) describeTagsLoop ::
  "ec2API \<Rightarrow> DescribeTagsInput \<Rightarrow> tagmap \<Rightarrow> (error + tagmap) option" where
  "describeTagsLoop ec2Client input tags =
     (case ec2Client input of
        Inl err \<Rightarrow> Some (Inl err)
      | Inr result \<Rightarrow>
          (case ResultNextToken result of
             None \<Rightarrow> Some (Inr (foldl storeTag tags (Tags result)))
           | Some tok \<Rightarrow>
               describeTagsLoop ec2Client (input\<lparr>NextToken := Some tok\<rparr>)
                 (foldl storeTag tags (Tags result))))"

definition fetchFunc :: "ec2API \<Rightarrow> Filter list \<Rightarrow> (error + tagmap) option" where
  "fetchFunc ec2Client tagFilters =
     describeTagsLoop ec2Client \<lparr>Filters = tagFilters, NextToken = None\<rparr> Map.empty"

subsection \<open>Start and Stop\<close>

text \<open>
  The goroutine that runs \<^verbatim>\<open>refreshTags\<close>, and the component as a whole: the Tagger,
  the state of its goroutine, and the outcomes of all invocations of the fetch function so
  far, oldest first.
\<close>

datatype goroutine = NotStarted | Running | Returned

record Component =
  tagger :: Tagger
  scheduler :: goroutine
  fetches :: "(error + tagmap) list"

text \<open>
  \<^verbatim>\<open>Start\<close> on a component whose goroutine has not been started.  The result is \<open>None\<close>
  when the first fetch never returns; otherwise it is the error returned (if any) and the
  component as \<^verbatim>\<open>Start\<close> leaves it.
\<close>

definition Start :: "Tagger \<Rightarrow> (error option \<times> Component) option" where
  "Start t =
     (case getEC2Metadata t of
        (Some err, t1) \<Rightarrow>
          Some (Some (MetadataStartError err),
                \<lparr>tagger = t1, scheduler = NotStarted, fetches = []\<rparr>)
      | (None, t1) \<Rightarrow>
          if isGettingEC2Tags t1
          then (let t2 = t1\<lparr>doneChan := Some ChanOpen\<rparr>;
                    t3 = (if RefreshInterval t2 = 0
                          then t2\<lparr>RefreshInterval := defaultRefreshInterval\<rparr> else t2)
                in case getEC2TagsFetchFunc t3 of
                     (t4, ec2Client, tagFilters) \<Rightarrow>
                       (case fetchFunc ec2Client tagFilters of
                          None \<Rightarrow> None
                        | Some (Inl err) \<Rightarrow>
                            Some (Some (TagsStartError err),
                                  \<lparr>tagger = t4, scheduler = NotStarted, fetches = [Inl err]\<rparr>)
                        | Some (Inr tags) \<Rightarrow>
                            (let t5 = t4\<lparr>ec2TagsCache := tags\<rparr>
                             in Some (None,
                                  \<lparr>tagger = t5,
                                   scheduler = (if isRefreshingEC2Tags t5 then Running
                                                else NotStarted),
                                   fetches = [Inr tags]\<rparr>))))
          else Some (None, \<lparr>tagger = t1, scheduler = NotStarted, fetches = []\<rparr>))"

text \<open>Closing a closed channel panics; closing is skipped for the nil channel.\<close>

definition Stop :: "Tagger \<Rightarrow> panic + Tagger" where
  "Stop t =
     (case doneChan t of
        None \<Rightarrow> Inr t
      | Some ChanOpen \<Rightarrow> Inr (t\<lparr>doneChan := Some ChanClosed\<rparr>)
      | Some ChanClosed \<Rightarrow> Inl CloseOfClosedChannel)"

subsection \<open>Apply\<close>

text \<open>
  The loop \<^verbatim>\<open>for k, v := range tags { metric.AddTag(k, v) }\<close> adds every pair of the
  snapshot; the keys of a map are distinct, so in whatever order the pairs are visited
  the tags of the metric end up overridden by the snapshot (\<open>range_tags_any_order\<close>
  below).
\<close>

definition addCachedTags :: "tagmap \<Rightarrow> Metric \<Rightarrow> Metric" where
  "addCachedTags tags metric = metric\<lparr>metricTags := metricTags metric ++ tags\<rparr>"

text \<open>The loop over \<^verbatim>\<open>t.EC2MetadataTags\<close> with its switch; the default case exits.\<close>

fun applyMetadataTags :: "Tagger \<Rightarrow> string list \<Rightarrow> Metric \<Rightarrow> fatal + Metric" where
  "applyMetadataTags t [] metric = Inr metric"
| "applyMetadataTags t (tag # rest) metric =
     (if tag = mdKeyInstanceId
      then applyMetadataTags t rest (AddTag metric mdKeyInstanceId (instanceId t))
      else if tag = mdKeyImageId
      then applyMetadataTags t rest (AddTag metric mdKeyImageId (imageId t))
      else if tag = mdKeyInstaneType
      then applyMetadataTags t rest (AddTag metric mdKeyInstaneType (instanceType t))
      else Inl (UnsupportedMetadataKey tag))"

text \<open>
  The loop over the metrics handed in, \<open>ins\<close> for the parameter \<^verbatim>\<open>in\<close>.  The metrics
  are updated in place and the slice is returned; the model returns the updated metrics.
\<close>

fun applyMetrics :: "Tagger \<Rightarrow> tagmap \<Rightarrow> Metric list \<Rightarrow> fatal + Metric list" where
  "applyMetrics t tags [] = Inr []"
| "applyMetrics t tags (metric # rest) =
     (case applyMetadataTags t (EC2MetadataTags t) (addCachedTags tags metric) of
        Inl f \<Rightarrow> Inl f
      | Inr metric' \<Rightarrow>
          (case applyMetrics t tags rest of
             Inl f \<Rightarrow> Inl f
           | Inr rest' \<Rightarrow> Inr (metric' # rest')))"

definition Apply :: "Tagger \<Rightarrow> Metric list \<Rightarrow> fatal + Metric list" where
  "Apply t ins = (let tags = ec2TagsCache t in applyMetrics t tags ins)"

subsection \<open>refreshTags\<close>

text \<open>
  What one \<^verbatim>\<open>select\<close> of the loop receives: a tick, together with what the refresh
  function returns when it is then called, or the closed \<^verbatim>\<open>done\<close> channel.
\<close>

datatype event = Tick "error + tagmap" | Done

fun selectCase :: "Tagger \<Rightarrow> event \<Rightarrow> Tagger \<times> goroutine" where
  "selectCase t (Tick (Inl err)) = (t, Running)"
| "selectCase t (Tick (Inr newTags)) = (t\<lparr>ec2TagsCache := newTags\<rparr>, Running)"
| "selectCase t Done = (t, Returned)"

fun refreshLoop :: "Tagger \<Rightarrow> event list \<Rightarrow> Tagger \<times> goroutine" where
  "refreshLoop t [] = (t, Running)"
| "refreshLoop t (ev # evs) =
     (case selectCase t ev of
        (t', Running) \<Rightarrow> refreshLoop t' evs
      | (t', st) \<Rightarrow> (t', st))"

text \<open>
  \<^verbatim>\<open>refreshTags\<close> on the events its loop receives: the Tagger afterwards and whether the
  goroutine is still in the loop.  Before the loop it computes the jitter, which panics
  for a zero interval, and creates the ticker, which panics for an interval that is not
  positive.
\<close>

definition refreshTags :: "string \<Rightarrow> Tagger \<Rightarrow> event list \<Rightarrow> panic + Tagger \<times> goroutine" where
  "refreshTags hostname t evs =
     (case hostJitter hostname (RefreshInterval t) of
        Inl p \<Rightarrow> Inl p
      | Inr jitter \<Rightarrow>
          if RefreshInterval t \<le>s 0 then Inl NonPositiveTickerInterval
          else Inr (refreshLoop t evs))"

subsection \<open>The life of a component\<close>

text \<open>
  After \<^verbatim>\<open>Start\<close> the host pipeline calls \<^verbatim>\<open>Apply\<close> and \<^verbatim>\<open>Stop\<close>, and the goroutine,
  if there is one, takes its events.  \<^verbatim>\<open>Apply\<close> writes to the metrics only, and a
  \<^verbatim>\<open>Stop\<close> that panics writes nothing.  An event is taken only by a goroutine that is
  in its loop, the closed channel only once \<^verbatim>\<open>Stop\<close> has closed it; every tick taken
  is one more invocation of the fetch function.
\<close>

datatype action = ApplyCall "Metric list" | StopCall | SchedulerEvent event

fun act :: "Component \<Rightarrow> action \<Rightarrow> Component" where
  "act c (ApplyCall ins) = c"
| "act c StopCall = (case Stop (tagger c) of Inl p \<Rightarrow> c | Inr t' \<Rightarrow> c\<lparr>tagger := t'\<rparr>)"
| "act c (SchedulerEvent (Tick r)) =
     (if scheduler c = Running
      then c\<lparr>tagger := fst (selectCase (tagger c) (Tick r)), fetches := fetches c @ [r]\<rparr>
      else c)"
| "act c (SchedulerEvent Done) =
     (if scheduler c = Running \<and> doneChan (tagger c) = Some ChanClosed
      then c\<lparr>scheduler := snd (selectCase (tagger c) Done)\<rparr>
      else c)"

definition lifetime :: "Component \<Rightarrow> action list \<Rightarrow> Component" where
  "lifetime c acts = foldl act c acts"

section \<open>Notions used to state the properties\<close>

text \<open>The key that the filter loop leaves in place of a configured key.\<close>

definition translateKey :: "string \<Rightarrow> string" where
  "translateKey key = (if key = cwDimensionASG then ec2InstanceTagKeyASG else key)"

text \<open>The Tagger on which \<^verbatim>\<open>Start\<close> builds the fetcher, given the one with the identity.\<close>

definition prepared :: "Tagger \<Rightarrow> Tagger" where
  "prepared t1 =
     (let t2 = t1\<lparr>doneChan := Some ChanOpen\<rparr>
      in if RefreshInterval t2 = 0 then t2\<lparr>RefreshInterval := defaultRefreshInterval\<rparr> else t2)"

text \<open>
  What the tag service answers to a query and to its follow-up queries: pages that each
  carry a next token, then a final answer, which is an error or a page without token.
\<close>

fun servesPages ::
  "ec2API \<Rightarrow> DescribeTagsInput \<Rightarrow> (TagDescription list \<times> string) list
     \<Rightarrow> error + TagDescription list \<Rightarrow> bool" where
  "servesPages ec2Client input [] final =
     (case final of
        Inl err \<Rightarrow> ec2Client input = Inl err
      | Inr page \<Rightarrow> ec2Client input = Inr \<lparr>Tags = page, ResultNextToken = None\<rparr>)"
| "servesPages ec2Client input ((page, tok) # rest) final =
     (ec2Client input = Inr \<lparr>Tags = page, ResultNextToken = Some tok\<rparr>
      \<and> servesPages ec2Client (input\<lparr>NextToken := Some tok\<rparr>) rest final)"

text \<open>
  The flat union of pages of entries, in the words of the specification: every entry under
  its renamed key, in one mapping; of two entries with one key the later one stays.
\<close>

definition renamed :: "TagDescription \<Rightarrow> string \<times> string" where
  "renamed tag =
     (if Key tag = ec2InstanceTagKeyASG then cwDimensionASG else Key tag, Value tag)"

definition flatUnion :: "TagDescription list list \<Rightarrow> tagmap" where
  "flatUnion pages = map_of (rev (map renamed (concat pages)))"

text \<open>
  The requested static-metadata tags: the identity field of the Tagger under each of the
  names.
\<close>

definition identityTags :: "Tagger \<Rightarrow> string list \<Rightarrow> tagmap" where
  "identityTags t names =
     (\<lambda>k. if k \<in> set names
          then (if k = mdKeyInstanceId then Some (instanceId t)
                else if k = mdKeyImageId then Some (imageId t)
                else if k = mdKeyInstaneType then Some (instanceType t)
                else None)
          else None)"

text \<open>
  What is seen of a call of \<^verbatim>\<open>Start\<close> that has returned: the error, the \<^verbatim>\<open>done\<close>
  channel, the goroutine and the number of invocations of the fetch function.
\<close>

definition observe ::
  "(error option \<times> Component) option
     \<Rightarrow> (error option \<times> chan option \<times> goroutine \<times> nat) option" where
  "observe r =
     map_option (\<lambda>(e, c). (e, doneChan (tagger c), scheduler c, length (fetches c))) r"

subsection \<open>A concrete scenario\<close>

text \<open>
  The identity resolves to I1, T1, M1 in region R1, and the tag service holds the tags A
  and B, which it serves in one page.
\<close>

definition scenarioDoc :: EC2InstanceIdentityDocument where
  "scenarioDoc = \<lparr>InstanceID = ''I1'', InstanceType = ''T1'', ImageID = ''M1'', Region = ''R1''\<rparr>"

definition scenarioAPI :: ec2API where
  "scenarioAPI input =
     Inr \<lparr>Tags = [\<lparr>Key = ''A'', Value = ''1''\<rparr>, \<lparr>Key = ''B'', Value = ''2''\<rparr>],
          ResultNextToken = None\<rparr>"

text \<open>
  Other tag services: one that serves two pages, the second under the token p2, with the
  group name of the instance on the first; one that fails on the second page; and one that
  holds the group name next to a tag that a user has named AutoScalingGroupName.
\<close>

definition pagedAPI :: ec2API where
  "pagedAPI input =
     (case NextToken input of
        None \<Rightarrow>
          Inr \<lparr>Tags = [\<lparr>Key = ''A'', Value = ''1''\<rparr>,
                       \<lparr>Key = ec2InstanceTagKeyASG, Value = ''G1''\<rparr>],
               ResultNextToken = Some ''p2''\<rparr>
      | Some tok \<Rightarrow>
          if tok = ''p2''
          then Inr \<lparr>Tags = [\<lparr>Key = ''B'', Value = ''2''\<rparr>], ResultNextToken = None\<rparr>
          else Inl (ServiceError ''InvalidNextToken''))"

definition failingAPI :: ec2API where
  "failingAPI input =
     (case NextToken input of
        None \<Rightarrow>
          Inr \<lparr>Tags = [\<lparr>Key = ''A'', Value = ''1''\<rparr>], ResultNextToken = Some ''p2''\<rparr>
      | Some tok \<Rightarrow> Inl (ServiceError ''RequestLimitExceeded''))"

definition collidingAPI :: ec2API where
  "collidingAPI input =
     Inr \<lparr>Tags = [\<lparr>Key = ec2InstanceTagKeyASG, Value = ''G1''\<rparr>,
                  \<lparr>Key = cwDimensionASG, Value = ''G2''\<rparr>],
          ResultNextToken = None\<rparr>"

text \<open>A tag service on an instance that carries a tag named InstanceId.\<close>

definition shadowingAPI :: ec2API where
  "shadowingAPI input =
     Inr \<lparr>Tags = [\<lparr>Key = mdKeyInstanceId, Value = ''fromtag''\<rparr>, \<lparr>Key = ''A'', Value = ''1''\<rparr>],
          ResultNextToken = None\<rparr>"

definition scenarioProvider :: "ec2API \<Rightarrow> ec2APIProvider" where
  "scenarioProvider api =
     \<lparr>newEC2 = (\<lambda>cfg. api),
      newEC2Metadata = \<lparr>Available = True, GetInstanceIdentityDocument = Inr scenarioDoc\<rparr>\<rparr>"

text \<open>A Tagger as the configuration leaves it: the unexported fields hold zero values.\<close>

definition configured :: "Duration \<Rightarrow> string list \<Rightarrow> string list \<Rightarrow> ec2API \<Rightarrow> Tagger" where
  "configured interval metadataTags tagKeys api =
     \<lparr>RefreshInterval = interval, EC2MetadataTags = metadataTags,
      EC2InstanceTagKeys = tagKeys,
      AccessKey = [], SecretKey = [], RoleARN = [], Profile = [], Filename = [], Token = [],
      apiProvider = scenarioProvider api,
      instanceId = [], instanceType = [], imageId = [], region = [],
      ec2TagsCache = Map.empty, doneChan = None\<rparr>"

text \<open>The same Tagger on a host where the identity service is not available.\<close>

definition offEC2 :: "Tagger \<Rightarrow> Tagger" where
  "offEC2 t =
     t\<lparr>apiProvider := (apiProvider t)\<lparr>newEC2Metadata :=
          \<lparr>Available = False, GetInstanceIdentityDocument = Inl (ServiceError ''unavailable'')\<rparr>\<rparr>\<rparr>"

text \<open>
  \<^verbatim>\<open>Start\<close> and then \<^verbatim>\<open>Apply\<close>: the error of \<^verbatim>\<open>Start\<close>, the cache it leaves, and what
  \<^verbatim>\<open>Apply\<close> returns on the metrics.
\<close>

definition startThenApply ::
  "Tagger \<Rightarrow> Metric list \<Rightarrow> (error option \<times> tagmap \<times> (fatal + Metric list)) option" where
  "startThenApply t ins =
     map_option (\<lambda>(e, c). (e, ec2TagsCache (tagger c), Apply (tagger c) ins)) (Start t)"

section \<open>Auxiliary facts\<close>

subsection \<open>Words\<close>

lemma uint_shifted: "uint (drop_bit 1 (w :: 64 word)) < 2 ^ 63"
proof -
  have "uint (drop_bit 1 w) = uint w div 2"
    by (simp add: drop_bit_eq_div uint_div_distrib)
  moreover have "uint w < 2 ^ 64"
    using uint_bounded [of w] by simp
  ultimately show ?thesis by simp
qed

lemma sint_small: "0 \<le> k \<Longrightarrow> k < 2 ^ 63 \<Longrightarrow> sint (word_of_int k :: 64 word) = k"
  by (simp add: sint_sbintrunc' signed_take_bit_int_eq_self)

lemma sint_shifted: "sint (drop_bit 1 (w :: 64 word)) = uint (drop_bit 1 w)"
proof -
  have "sint (drop_bit 1 w) = signed_take_bit 63 (uint (drop_bit 1 w))"
    by (simp add: sint_uint)
  also have "\<dots> = uint (drop_bit 1 w)"
  proof (rule signed_take_bit_int_eq_self)
    have "- (2 ^ 63) \<le> (0::int)" by simp
    also have "0 \<le> uint (drop_bit 1 w)" by simp
    finally show "- (2 ^ 63) \<le> uint (drop_bit 1 w)" .
    show "uint (drop_bit 1 w) < 2 ^ 63" by (rule uint_shifted)
  qed
  finally show ?thesis .
qed

lemma hostJitter_nonzero:
  "mx \<noteq> 0 \<Longrightarrow> hostJitter hostname mx =
     Inr (word_of_int (uint (drop_bit 1 (fnv64Write offset64 hostname)) smod sint mx))"
  unfolding hostJitter_def Let_def sint_shifted by simp

subsection \<open>The key filter\<close>

lemma translate_prefix:
  "n \<le> length keys \<Longrightarrow>
   fold (\<lambda>i ks. if ks ! i = cwDimensionASG then ks[i := ec2InstanceTagKeyASG] else ks)
        [0..<n] keys
   = map translateKey (take n keys) @ drop n keys"
proof (induction n)
  case 0
  then show ?case by simp
next
  case (Suc n)
  then have n: "n < length keys" by simp
  define pre where "pre = map translateKey (take n keys)"
  define post where "post = drop (Suc n) keys"
  define cur where "cur = pre @ keys ! n # post"
  have len: "length pre = n" using n by (simp add: pre_def)
  have dr: "drop n keys = keys ! n # post"
    using n by (simp add: Cons_nth_drop_Suc post_def)
  have tk: "take (Suc n) keys = take n keys @ [keys ! n]"
    using n by (simp add: take_Suc_conv_app_nth)
  have ih: "fold (\<lambda>i ks. if ks ! i = cwDimensionASG then ks[i := ec2InstanceTagKeyASG] else ks)
        [0..<n] keys = cur"
    using Suc.IH n dr by (simp add: pre_def cur_def)
  have at: "cur ! n = keys ! n"
    using len by (simp add: nth_append cur_def)
  have upd: "cur[n := v] = pre @ v # post" for v
    using len by (simp add: list_update_append cur_def)
  have "(if cur ! n = cwDimensionASG then cur[n := ec2InstanceTagKeyASG] else cur)
        = pre @ translateKey (keys ! n) # post"
  proof (cases "keys ! n = cwDimensionASG")
    case True
    then show ?thesis using at upd by (simp add: translateKey_def)
  next
    case False
    then show ?thesis using at by (simp add: translateKey_def cur_def)
  qed
  also have "\<dots> = map translateKey (take (Suc n) keys) @ drop (Suc n) keys"
    by (simp add: tk pre_def post_def)
  finally show ?case using ih by (auto split: if_splits)
qed

lemma translateKeys_map: "translateKeys keys = map translateKey keys"
  using translate_prefix [of "length keys" keys] by (simp add: translateKeys_def)

lemma isGettingAllEC2Tags_iff: "isGettingAllEC2Tags t \<longleftrightarrow> EC2InstanceTagKeys t = [''*'']"
  by (cases "EC2InstanceTagKeys t") (auto simp: isGettingAllEC2Tags_def)

lemma getEC2TagsFetchFunc_filters:
  "snd (snd (getEC2TagsFetchFunc t)) =
     [\<lparr>Name = ''resource-type'', Values = [''instance'']\<rparr>,
      \<lparr>Name = ''resource-id'', Values = [instanceId t]\<rparr>]
     @ (if EC2InstanceTagKeys t = [''*''] then []
        else [\<lparr>Name = ''key'', Values = map translateKey (EC2InstanceTagKeys t)\<rparr>])"
  by (simp add: getEC2TagsFetchFunc_def Let_def isGettingAllEC2Tags_iff translateKeys_map)

lemma getEC2TagsFetchFunc_tagger:
  "fst (getEC2TagsFetchFunc t) =
     (if EC2InstanceTagKeys t = [''*''] then t
      else t\<lparr>EC2InstanceTagKeys := map translateKey (EC2InstanceTagKeys t)\<rparr>)"
  by (simp add: getEC2TagsFetchFunc_def Let_def isGettingAllEC2Tags_iff translateKeys_map)

lemma getEC2TagsFetchFunc_client:
  "fst (snd (getEC2TagsFetchFunc t)) =
     newEC2 (apiProvider t)
       \<lparr>credRegion = region t, credAccessKey = AccessKey t, credSecretKey = SecretKey t,
        credRoleARN = RoleARN t, credProfile = Profile t, credFilename = Filename t,
        credToken = Token t\<rparr>"
  by (simp add: getEC2TagsFetchFunc_def Let_def)

subsection \<open>The pagination loop\<close>

lemma describeTagsLoop_error:
  "ec2Client input = Inl err \<Longrightarrow> describeTagsLoop ec2Client input tags = Some (Inl err)"
  by (subst describeTagsLoop.simps) simp

lemma describeTagsLoop_last:
  "ec2Client input = Inr \<lparr>Tags = page, ResultNextToken = None\<rparr> \<Longrightarrow>
   describeTagsLoop ec2Client input tags = Some (Inr (foldl storeTag tags page))"
  by (subst describeTagsLoop.simps) simp

lemma describeTagsLoop_more:
  "ec2Client input = Inr \<lparr>Tags = page, ResultNextToken = Some tok\<rparr> \<Longrightarrow>
   describeTagsLoop ec2Client input tags =
     describeTagsLoop ec2Client (input\<lparr>NextToken := Some tok\<rparr>) (foldl storeTag tags page)"
  by (subst describeTagsLoop.simps) simp

lemma describeTagsLoop_pages:
  "servesPages ec2Client input pages final \<Longrightarrow>
   describeTagsLoop ec2Client input tags =
     Some (case final of
             Inl err \<Rightarrow> Inl err
           | Inr page \<Rightarrow> Inr (foldl storeTag tags (concat (map fst pages) @ page)))"
proof (induction pages arbitrary: input tags)
  case Nil
  then show ?case
    by (cases final) (simp_all add: describeTagsLoop_error describeTagsLoop_last)
next
  case (Cons p pages)
  obtain page tok where p: "p = (page, tok)" by (cases p)
  from Cons.prems p
  have here: "ec2Client input = Inr \<lparr>Tags = page, ResultNextToken = Some tok\<rparr>"
    and rest: "servesPages ec2Client (input\<lparr>NextToken := Some tok\<rparr>) pages final"
    by simp_all
  show ?case
    using describeTagsLoop_more [of ec2Client input page tok tags, OF here]
      Cons.IH [OF rest, of "foldl storeTag tags page"] p
    by (cases final) simp_all
qed

lemma storeTag_renamed: "storeTag tags tag = tags(fst (renamed tag) \<mapsto> snd (renamed tag))"
  by (simp add: storeTag_def renamed_def Let_def)

lemma foldl_storeTag: "foldl storeTag tags entries = tags ++ map_of (rev (map renamed entries))"
proof (induction entries arbitrary: tags)
  case Nil
  then show ?case by simp
next
  case (Cons e entries)
  have st: "storeTag tags e = tags(fst (renamed e) \<mapsto> snd (renamed e))"
    by (rule storeTag_renamed)
  have "foldl storeTag tags (e # entries) = foldl storeTag (storeTag tags e) entries"
    by simp
  also have "\<dots> = tags(fst (renamed e) \<mapsto> snd (renamed e)) ++ map_of (rev (map renamed entries))"
    unfolding st by (rule Cons.IH)
  also have "\<dots> = tags ++ (map_of [renamed e] ++ map_of (rev (map renamed entries)))"
    by (cases "renamed e") (simp add: fun_eq_iff map_add_def split: option.splits)
  also have "\<dots> = tags ++ map_of (rev (map renamed (e # entries)))"
    by simp
  finally show ?case .
qed

lemma foldl_storeTag_flatUnion: "foldl storeTag Map.empty (concat pages) = flatUnion pages"
  by (simp add: foldl_storeTag flatUnion_def)

lemma fetchFunc_pages:
  assumes "servesPages ec2Client \<lparr>Filters = tagFilters, NextToken = None\<rparr> pages final"
  shows "fetchFunc ec2Client tagFilters =
           Some (case final of
                   Inl err \<Rightarrow> Inl err
                 | Inr page \<Rightarrow> Inr (flatUnion (map fst pages @ [page])))"
  using describeTagsLoop_pages [OF assms, of Map.empty]
  by (cases final) (simp_all add: fetchFunc_def foldl_storeTag_flatUnion [symmetric])

subsection \<open>Start\<close>

lemma getEC2Metadata_ok:
  assumes "getEC2Metadata t = (None, t1)"
  shows "\<exists>doc. Available (newEC2Metadata (apiProvider t))
           \<and> GetInstanceIdentityDocument (newEC2Metadata (apiProvider t)) = Inr doc
           \<and> t1 = t\<lparr>instanceId := InstanceID doc, instanceType := InstanceType doc,
                      imageId := ImageID doc, region := Region doc\<rparr>"
  using assms by (auto simp: getEC2Metadata_def Let_def split: if_splits sum.splits)

lemma getEC2Metadata_err:
  assumes "getEC2Metadata t = (Some err, t1)"
  shows "t1 = t"
  using assms by (auto simp: getEC2Metadata_def Let_def split: if_splits sum.splits)

lemma getEC2Metadata_resolved:
  assumes "Available (newEC2Metadata (apiProvider t))"
      and "GetInstanceIdentityDocument (newEC2Metadata (apiProvider t)) = Inr doc"
  shows "getEC2Metadata t =
           (None, t\<lparr>instanceId := InstanceID doc, instanceType := InstanceType doc,
                      imageId := ImageID doc, region := Region doc\<rparr>)"
  using assms by (simp add: getEC2Metadata_def Let_def)

lemma getEC2Metadata_frame:
  assumes "getEC2Metadata t = (e, t1)"
  shows "EC2InstanceTagKeys t1 = EC2InstanceTagKeys t"
    and "EC2MetadataTags t1 = EC2MetadataTags t"
    and "RefreshInterval t1 = RefreshInterval t"
    and "doneChan t1 = doneChan t"
    and "ec2TagsCache t1 = ec2TagsCache t"
    and "apiProvider t1 = apiProvider t"
  using assms by (auto simp: getEC2Metadata_def Let_def split: if_splits sum.splits)

lemma prepared_frame:
  "EC2InstanceTagKeys (prepared t1) = EC2InstanceTagKeys t1"
  "EC2MetadataTags (prepared t1) = EC2MetadataTags t1"
  "doneChan (prepared t1) = Some ChanOpen"
  "instanceId (prepared t1) = instanceId t1"
  "instanceType (prepared t1) = instanceType t1"
  "imageId (prepared t1) = imageId t1"
  "apiProvider (prepared t1) = apiProvider t1"
  "RefreshInterval (prepared t1) =
     (if RefreshInterval t1 = 0 then defaultRefreshInterval else RefreshInterval t1)"
  by (simp_all add: prepared_def Let_def)

lemma getEC2TagsFetchFunc_frame:
  "EC2MetadataTags (fst (getEC2TagsFetchFunc t)) = EC2MetadataTags t"
  "doneChan (fst (getEC2TagsFetchFunc t)) = doneChan t"
  "instanceId (fst (getEC2TagsFetchFunc t)) = instanceId t"
  "instanceType (fst (getEC2TagsFetchFunc t)) = instanceType t"
  "imageId (fst (getEC2TagsFetchFunc t)) = imageId t"
  "RefreshInterval (fst (getEC2TagsFetchFunc t)) = RefreshInterval t"
  "ec2TagsCache (fst (getEC2TagsFetchFunc t)) = ec2TagsCache t"
  "EC2InstanceTagKeys (fst (getEC2TagsFetchFunc t)) =
     (if EC2InstanceTagKeys t = [''*''] then EC2InstanceTagKeys t
      else map translateKey (EC2InstanceTagKeys t))"
  by (simp_all add: getEC2TagsFetchFunc_tagger)

lemma defaultRefreshInterval_pos: "0 <s defaultRefreshInterval"
  by (simp add: defaultRefreshInterval_def Second_def word_sless_alt)

lemma prepared_refreshing:
  "0 <s RefreshInterval (prepared t1) \<longleftrightarrow> 0 \<le>s RefreshInterval t1"
proof -
  have "0 < sint (RefreshInterval t1)"
    if "RefreshInterval t1 \<noteq> 0" and "0 \<le> sint (RefreshInterval t1)"
  proof -
    from that(1) have "sint (RefreshInterval t1) \<noteq> 0" by (simp add: signed_eq_0_iff)
    with that(2) show ?thesis by simp
  qed
  then show ?thesis
    using defaultRefreshInterval_pos
    by (auto simp: prepared_frame word_sle_eq word_sless_alt)
qed

lemma Start_no_keys:
  assumes "getEC2Metadata t = (None, t1)" and "EC2InstanceTagKeys t = []"
  shows "Start t = Some (None, \<lparr>tagger = t1, scheduler = NotStarted, fetches = []\<rparr>)"
proof -
  from getEC2Metadata_ok [OF assms(1)] assms(2) have "EC2InstanceTagKeys t1 = []" by auto
  then show ?thesis using assms(1) by (simp add: Start_def isGettingEC2Tags_def)
qed

lemma Start_metadata_error:
  assumes "getEC2Metadata t = (Some err, t1)"
  shows "Start t = Some (Some (MetadataStartError err),
                         \<lparr>tagger = t, scheduler = NotStarted, fetches = []\<rparr>)"
  using assms getEC2Metadata_err [OF assms] by (simp add: Start_def)

lemma Start_keys:
  assumes "getEC2Metadata t = (None, t1)" and "EC2InstanceTagKeys t \<noteq> []"
      and "getEC2TagsFetchFunc (prepared t1) = (t4, ec2Client, tagFilters)"
  shows "Start t =
     (case fetchFunc ec2Client tagFilters of
        None \<Rightarrow> None
      | Some (Inl err) \<Rightarrow>
          Some (Some (TagsStartError err),
                \<lparr>tagger = t4, scheduler = NotStarted, fetches = [Inl err]\<rparr>)
      | Some (Inr tags) \<Rightarrow>
          Some (None,
                \<lparr>tagger = t4\<lparr>ec2TagsCache := tags\<rparr>,
                 scheduler = (if 0 \<le>s RefreshInterval t then Running else NotStarted),
                 fetches = [Inr tags]\<rparr>))"
proof -
  from getEC2Metadata_ok [OF assms(1)] assms(2) have k: "isGettingEC2Tags t1"
    by (auto simp: isGettingEC2Tags_def)
  have prep: "(if RefreshInterval (t1\<lparr>doneChan := Some ChanOpen\<rparr>) = 0
               then t1\<lparr>doneChan := Some ChanOpen\<rparr>\<lparr>RefreshInterval := defaultRefreshInterval\<rparr>
               else t1\<lparr>doneChan := Some ChanOpen\<rparr>) = prepared t1"
    unfolding prepared_def Let_def ..
  have "t4 = fst (getEC2TagsFetchFunc (prepared t1))" using assms(3) by simp
  then have "RefreshInterval t4 = RefreshInterval (prepared t1)"
    by (simp add: getEC2TagsFetchFunc_tagger)
  then have r: "0 <s RefreshInterval t4 \<longleftrightarrow> 0 \<le>s RefreshInterval t"
    using prepared_refreshing [of t1] getEC2Metadata_frame(3) [OF assms(1)] by simp
  have "Start t =
          (let t2 = t1\<lparr>doneChan := Some ChanOpen\<rparr>;
               t3 = (if RefreshInterval t2 = 0
                     then t2\<lparr>RefreshInterval := defaultRefreshInterval\<rparr> else t2)
           in case getEC2TagsFetchFunc t3 of
                (t4, ec2Client, tagFilters) \<Rightarrow>
                  (case fetchFunc ec2Client tagFilters of
                     None \<Rightarrow> None
                   | Some (Inl err) \<Rightarrow>
                       Some (Some (TagsStartError err),
                             \<lparr>tagger = t4, scheduler = NotStarted, fetches = [Inl err]\<rparr>)
                   | Some (Inr tags) \<Rightarrow>
                       (let t5 = t4\<lparr>ec2TagsCache := tags\<rparr>
                        in Some (None,
                             \<lparr>tagger = t5,
                              scheduler = (if isRefreshingEC2Tags t5 then Running
                                           else NotStarted),
                              fetches = [Inr tags]\<rparr>))))"
    using k by (simp only: Start_def assms(1) prod.case option.case if_True)
  also have "\<dots> =
          (case fetchFunc ec2Client tagFilters of
                     None \<Rightarrow> None
                   | Some (Inl err) \<Rightarrow>
                       Some (Some (TagsStartError err),
                             \<lparr>tagger = t4, scheduler = NotStarted, fetches = [Inl err]\<rparr>)
                   | Some (Inr tags) \<Rightarrow>
                        Some (None,
                             \<lparr>tagger = t4\<lparr>ec2TagsCache := tags\<rparr>,
                              scheduler = (if isRefreshingEC2Tags (t4\<lparr>ec2TagsCache := tags\<rparr>)
                                           then Running else NotStarted),
                              fetches = [Inr tags]\<rparr>))"
    by (simp only: Let_def prep assms(3) prod.case)
  finally show ?thesis
    using r by (simp add: isRefreshingEC2Tags_def split: option.splits sum.splits)
qed

text \<open>What Start leaves behind when it returns after the identity was resolved and tag keys are configured.\<close>

lemma Start_keys_returned:
  assumes md: "getEC2Metadata t = (None, t1)" and keys: "EC2InstanceTagKeys t \<noteq> []"
      and ret: "Start t = Some (e, c)"
  shows "\<exists>out. fetches c = [out]
           \<and> fetchFunc (fst (snd (getEC2TagsFetchFunc (prepared t1))))
                        (snd (snd (getEC2TagsFetchFunc (prepared t1)))) = Some out
           \<and> (case out of
                 Inl err \<Rightarrow>
                   e = Some (TagsStartError err) \<and> scheduler c = NotStarted
                   \<and> tagger c = fst (getEC2TagsFetchFunc (prepared t1))
               | Inr tags \<Rightarrow>
                   e = None
                   \<and> scheduler c = (if 0 \<le>s RefreshInterval t then Running else NotStarted)
                   \<and> tagger c = (fst (getEC2TagsFetchFunc (prepared t1)))\<lparr>ec2TagsCache := tags\<rparr>)"
proof -
  obtain t4 cl fs where g: "getEC2TagsFetchFunc (prepared t1) = (t4, cl, fs)"
    by (cases "getEC2TagsFetchFunc (prepared t1)") auto
  show ?thesis
    using Start_keys [OF md keys g] ret g
    by (auto split: option.splits sum.splits)
qed


lemma Start_keys_ok:
  assumes md: "getEC2Metadata t = (None, t1)" and keys: "EC2InstanceTagKeys t \<noteq> []"
      and ret: "Start t = Some (None, c)"
  shows "\<exists>tags. fetches c = [Inr tags]
           \<and> fetchFunc (fst (snd (getEC2TagsFetchFunc (prepared t1))))
                        (snd (snd (getEC2TagsFetchFunc (prepared t1)))) = Some (Inr tags)
           \<and> scheduler c = (if 0 \<le>s RefreshInterval t then Running else NotStarted)
           \<and> tagger c = (fst (getEC2TagsFetchFunc (prepared t1)))\<lparr>ec2TagsCache := tags\<rparr>"
proof -
  from Start_keys_returned [OF md keys ret]
  obtain out where o: "fetches c = [out]"
    and f: "fetchFunc (fst (snd (getEC2TagsFetchFunc (prepared t1))))
                      (snd (snd (getEC2TagsFetchFunc (prepared t1)))) = Some out"
    and r: "case out of
              Inl err \<Rightarrow> None = Some (TagsStartError err) \<and> scheduler c = NotStarted
                \<and> tagger c = fst (getEC2TagsFetchFunc (prepared t1))
            | Inr tags \<Rightarrow> (None :: error option) = None
                \<and> scheduler c = (if 0 \<le>s RefreshInterval t then Running else NotStarted)
                \<and> tagger c = (fst (getEC2TagsFetchFunc (prepared t1)))\<lparr>ec2TagsCache := tags\<rparr>"
    by blast
  show ?thesis
  proof (cases out)
    case (Inl err)
    with r show ?thesis by simp
  next
    case (Inr tags)
    with o f r show ?thesis by simp
  qed
qed

lemma prepared_fetcher:
  "fst (snd (getEC2TagsFetchFunc (prepared t1))) = fst (snd (getEC2TagsFetchFunc t1))"
  "snd (snd (getEC2TagsFetchFunc (prepared t1))) = snd (snd (getEC2TagsFetchFunc t1))"
  by (simp_all add: getEC2TagsFetchFunc_client getEC2TagsFetchFunc_filters prepared_def Let_def)

lemma Start_fetch_returns:
  assumes md: "getEC2Metadata t = (None, t1)" and keys: "EC2InstanceTagKeys t \<noteq> []"
      and f: "fetchFunc (fst (snd (getEC2TagsFetchFunc t1))) (snd (snd (getEC2TagsFetchFunc t1)))
                = Some out"
  shows "\<exists>e c. Start t = Some (e, c) \<and> fetches c = [out]"
proof -
  obtain t4 cl fs where g: "getEC2TagsFetchFunc (prepared t1) = (t4, cl, fs)"
    by (cases "getEC2TagsFetchFunc (prepared t1)") auto
  from g prepared_fetcher [of t1]
  have "cl = fst (snd (getEC2TagsFetchFunc t1))" "fs = snd (snd (getEC2TagsFetchFunc t1))"
    by simp_all
  with f have "fetchFunc cl fs = Some out" by simp
  with Start_keys [OF md keys g] show ?thesis by (cases out) simp_all
qed

subsection \<open>The scenario\<close>

lemma scenario_metadata:
  "getEC2Metadata (configured i md keys api) =
     (None, (configured i md keys api)\<lparr>instanceId := ''I1'', instanceType := ''T1'',
                                       imageId := ''M1'', region := ''R1''\<rparr>)"
  by (simp add: getEC2Metadata_def configured_def scenarioProvider_def scenarioDoc_def)

lemma scenario_fields:
  "EC2InstanceTagKeys (configured i md keys api) = keys"
  "EC2MetadataTags (configured i md keys api) = md"
  "RefreshInterval (configured i md keys api) = i"
  "doneChan (configured i md keys api) = None"
  "apiProvider (configured i md keys api) = scenarioProvider api"
  by (simp_all add: configured_def)

lemma scenario_fetch:
  "fetchFunc scenarioAPI fs =
     Some (Inr (flatUnion [[\<lparr>Key = ''A'', Value = ''1''\<rparr>, \<lparr>Key = ''B'', Value = ''2''\<rparr>]]))"
proof -
  have "servesPages scenarioAPI \<lparr>Filters = fs, NextToken = None\<rparr> []
          (Inr [\<lparr>Key = ''A'', Value = ''1''\<rparr>, \<lparr>Key = ''B'', Value = ''2''\<rparr>])"
    by (simp add: scenarioAPI_def)
  from fetchFunc_pages [OF this] show ?thesis by simp
qed

lemma scenario_client:
  assumes "apiProvider t1 = scenarioProvider api"
  shows "fst (snd (getEC2TagsFetchFunc (prepared t1))) = api"
  using assms by (simp add: getEC2TagsFetchFunc_client prepared_frame scenarioProvider_def)

lemma scenario_Start:
  assumes "keys \<noteq> []"
  shows "\<exists>c. Start (configured i md keys scenarioAPI) = Some (None, c)"
proof -
  let ?t = "configured i md keys scenarioAPI"
  let ?t1 = "?t\<lparr>instanceId := ''I1'', instanceType := ''T1'', imageId := ''M1'', region := ''R1''\<rparr>"
  obtain t4 cl fs where g: "getEC2TagsFetchFunc (prepared ?t1) = (t4, cl, fs)"
    by (cases "getEC2TagsFetchFunc (prepared ?t1)") auto
  have "cl = fst (snd (getEC2TagsFetchFunc (prepared ?t1)))" using g by simp
  then have cl: "cl = scenarioAPI"
    by (simp add: getEC2TagsFetchFunc_client prepared_frame configured_def scenarioProvider_def)
  have k: "EC2InstanceTagKeys ?t \<noteq> []" using assms by (simp add: scenario_fields)
  show ?thesis
    using Start_keys [OF scenario_metadata k g] by (simp add: cl scenario_fetch)
qed

lemma configured_Start:
  assumes "keys \<noteq> []" and "\<And>fs. fetchFunc api fs = Some (Inr tags)"
  shows "\<exists>c. Start (configured i md keys api) = Some (None, c)
           \<and> ec2TagsCache (tagger c) = tags \<and> EC2MetadataTags (tagger c) = md
           \<and> instanceId (tagger c) = ''I1'' \<and> instanceType (tagger c) = ''T1''
           \<and> imageId (tagger c) = ''M1''"
proof -
  let ?t = "configured i md keys api"
  let ?t1 = "?t\<lparr>instanceId := ''I1'', instanceType := ''T1'', imageId := ''M1'', region := ''R1''\<rparr>"
  obtain t4 cl fs where g: "getEC2TagsFetchFunc (prepared ?t1) = (t4, cl, fs)"
    by (cases "getEC2TagsFetchFunc (prepared ?t1)") auto
  have k: "EC2InstanceTagKeys ?t \<noteq> []" using assms(1) by (simp add: scenario_fields)
  have t4: "t4 = fst (getEC2TagsFetchFunc (prepared ?t1))" using g by simp
  have "cl = fst (snd (getEC2TagsFetchFunc (prepared ?t1)))" using g by simp
  then have cl: "cl = api"
    by (simp add: getEC2TagsFetchFunc_client prepared_frame configured_def scenarioProvider_def)
  from Start_keys [OF scenario_metadata k g]
  have s: "Start ?t = Some (None,
             \<lparr>tagger = t4\<lparr>ec2TagsCache := tags\<rparr>,
              scheduler = (if 0 \<le>s RefreshInterval ?t then Running else NotStarted),
              fetches = [Inr tags]\<rparr>)"
    by (simp add: cl assms(2))
  have "EC2MetadataTags t4 = md" "instanceId t4 = ''I1''" "instanceType t4 = ''T1''"
    "imageId t4 = ''M1''"
    by (simp_all add: t4 getEC2TagsFetchFunc_frame prepared_frame scenario_fields)
  with s show ?thesis by simp
qed

lemma shadowing_fetch:
  "fetchFunc shadowingAPI fs = Some (Inr [''InstanceId'' \<mapsto> ''fromtag'', ''A'' \<mapsto> ''1''])"
proof -
  have "servesPages shadowingAPI \<lparr>Filters = fs, NextToken = None\<rparr> []
          (Inr [\<lparr>Key = mdKeyInstanceId, Value = ''fromtag''\<rparr>, \<lparr>Key = ''A'', Value = ''1''\<rparr>])"
    by (simp add: shadowingAPI_def)
  from fetchFunc_pages [OF this] show ?thesis
    by (simp add: flatUnion_def renamed_def mdKeyInstanceId_def ec2InstanceTagKeyASG_def)
qed

subsection \<open>The life of a component without scheduler\<close>

lemma act_not_started:
  assumes "scheduler c = NotStarted"
  shows "scheduler (act c a) = NotStarted \<and> fetches (act c a) = fetches c"
proof (cases a)
  case (ApplyCall ins)
  then show ?thesis using assms by simp
next
  case StopCall
  then show ?thesis using assms by (simp split: sum.splits)
next
  case (SchedulerEvent ev)
  then show ?thesis using assms by (cases ev) simp_all
qed

lemma lifetime_not_started:
  "scheduler c = NotStarted \<Longrightarrow>
   scheduler (lifetime c acts) = NotStarted \<and> fetches (lifetime c acts) = fetches c"
  unfolding lifetime_def
proof (induction acts arbitrary: c)
  case Nil
  then show ?case by simp
next
  case (Cons a acts)
  from act_not_started [OF Cons.prems, of a] Cons.IH [of "act c a"]
  show ?case by simp
qed

subsection \<open>Apply, Stop and the refresh loop\<close>

text \<open>
  The loop over the cache snapshot, run in any order in which the pairs of the mapping can
  be visited, ends in the metric that \<open>addCachedTags\<close> describes.
\<close>

lemma range_tags_any_order:
  assumes "distinct (map fst kvs)"
  shows "fold (\<lambda>(k, v) metric. AddTag metric k v) kvs metric
           = addCachedTags (map_of kvs) metric"
  using assms
proof (induction kvs arbitrary: metric)
  case Nil
  then show ?case by (simp add: addCachedTags_def)
next
  case (Cons kv kvs)
  obtain k v where kv: "kv = (k, v)" by (cases kv)
  from Cons.prems kv have d: "distinct (map fst kvs)" and k: "k \<notin> fst ` set kvs" by auto
  from k have none: "map_of kvs k = None" by (simp add: map_of_eq_None_iff)
  have eq: "(metricTags metric)(k \<mapsto> v) ++ map_of kvs = metricTags metric ++ map_of (kv # kvs)"
    using none by (auto simp: kv fun_eq_iff map_add_def split: option.splits)
  have "fold (\<lambda>(k, v) metric. AddTag metric k v) (kv # kvs) metric
          = fold (\<lambda>(k, v) metric. AddTag metric k v) kvs (AddTag metric k v)"
    by (simp add: kv)
  also have "\<dots> = addCachedTags (map_of kvs) (AddTag metric k v)"
    by (rule Cons.IH [OF d])
  also have "\<dots> = metric\<lparr>metricTags := (metricTags metric)(k \<mapsto> v) ++ map_of kvs\<rparr>"
    by (simp add: addCachedTags_def AddTag_def)
  also have "\<dots> = addCachedTags (map_of (kv # kvs)) metric"
    unfolding eq addCachedTags_def ..
  finally show ?case .
qed

lemma translateKey_literal:
  "translateKey = (\<lambda>key. if key = ''AutoScalingGroupName''
                           then ''aws:autoscaling:groupName'' else key)"
  by (simp add: fun_eq_iff translateKey_def cwDimensionASG_def ec2InstanceTagKeyASG_def)

lemma Start_keys_tagger_keys:
  assumes md: "getEC2Metadata t = (None, t1)" and keys: "EC2InstanceTagKeys t \<noteq> []"
      and ret: "Start t = Some (e, c)"
  shows "EC2InstanceTagKeys (tagger c) =
           (if EC2InstanceTagKeys t = [''*''] then EC2InstanceTagKeys t
            else map translateKey (EC2InstanceTagKeys t))"
proof -
  from Start_keys_returned [OF md keys ret]
  obtain out where r: "case out of
              Inl err \<Rightarrow> e = Some (TagsStartError err) \<and> scheduler c = NotStarted
                \<and> tagger c = fst (getEC2TagsFetchFunc (prepared t1))
            | Inr tags \<Rightarrow> e = None
                \<and> scheduler c = (if 0 \<le>s RefreshInterval t then Running else NotStarted)
                \<and> tagger c = (fst (getEC2TagsFetchFunc (prepared t1)))\<lparr>ec2TagsCache := tags\<rparr>"
    by blast
  have "EC2InstanceTagKeys (tagger c) = EC2InstanceTagKeys (fst (getEC2TagsFetchFunc (prepared t1)))"
    using r by (cases out) simp_all
  then show ?thesis
    using getEC2Metadata_frame(1) [OF md]
    by (simp add: getEC2TagsFetchFunc_frame prepared_frame)
qed

lemma Stop_nil: "doneChan t = None \<Longrightarrow> Stop t = Inr t"
  by (simp add: Stop_def)

lemma Stop_open: "doneChan t = Some ChanOpen \<Longrightarrow> Stop t = Inr (t\<lparr>doneChan := Some ChanClosed\<rparr>)"
  by (simp add: Stop_def)

lemma Start_without_keys:
  assumes "EC2InstanceTagKeys t = []"
  shows "\<exists>e c. Start t = Some (e, c) \<and> doneChan (tagger c) = doneChan t
           \<and> scheduler c = NotStarted \<and> fetches c = []"
proof -
  obtain e1 t1 where md: "getEC2Metadata t = (e1, t1)" by (cases "getEC2Metadata t")
  show ?thesis
  proof (cases e1)
    case None
    with md Start_no_keys [of t t1] assms getEC2Metadata_frame(4) [OF md]
    show ?thesis by simp
  next
    case (Some err)
    with md Start_metadata_error [of t err t1] show ?thesis by simp
  qed
qed

lemma refreshLoop_append:
  "refreshLoop t (evs @ evs') =
     (case refreshLoop t evs of
        (t', Running) \<Rightarrow> refreshLoop t' evs'
      | (t', st) \<Rightarrow> (t', st))"
proof (induction evs arbitrary: t)
  case Nil
  then show ?case by simp
next
  case (Cons ev evs)
  show ?case
  proof (cases ev)
    case (Tick r)
    then show ?thesis using Cons.IH by (cases r) simp_all
  next
    case Done
    then show ?thesis by simp
  qed
qed

lemma refreshLoop_errors: "refreshLoop t (map (\<lambda>err. Tick (Inl err)) errs) = (t, Running)"
  by (induction errs) simp_all

lemma refreshTags_loop:
  "refreshTags hostname t evs = Inr r \<Longrightarrow>
   refreshTags hostname t evs' = Inr (refreshLoop t evs') \<and> r = refreshLoop t evs"
  by (auto simp: refreshTags_def split: sum.splits if_splits)

lemma refreshTags_positive:
  assumes "0 <s RefreshInterval t"
  shows "refreshTags hostname t evs = Inr (refreshLoop t evs)"
proof -
  from assms have nz: "RefreshInterval t \<noteq> 0" by auto
  from assms have np: "\<not> RefreshInterval t \<le>s 0"
    by (simp add: word_sle_eq word_sless_alt)
  show ?thesis
    using np by (simp add: refreshTags_def hostJitter_nonzero [OF nz])
qed

text \<open>
  \<^verbatim>\<open>Start\<close> starts the goroutine only with a positive interval, and so \<^verbatim>\<open>refreshTags\<close>
  neither panics in the jitter nor in the ticker.
\<close>

lemma started_scheduler_runs:
  assumes "Start t = Some (None, c)" and "scheduler c = Running"
  shows "0 <s RefreshInterval (tagger c)
         \<and> refreshTags hostname (tagger c) evs = Inr (refreshLoop (tagger c) evs)"
proof -
  obtain e1 t1 where md: "getEC2Metadata t = (e1, t1)" by (cases "getEC2Metadata t")
  have "e1 = None"
  proof (cases e1)
    case None
    then show ?thesis .
  next
    case (Some err)
    with md Start_metadata_error [of t err t1] assms(1) show ?thesis by simp
  qed
  with md have md: "getEC2Metadata t = (None, t1)" by simp
  have keys: "EC2InstanceTagKeys t \<noteq> []"
  proof
    assume "EC2InstanceTagKeys t = []"
    from Start_no_keys [OF md this] assms show False by simp
  qed
  from Start_keys_ok [OF md keys assms(1)]
  obtain tags where sch: "scheduler c = (if 0 \<le>s RefreshInterval t then Running else NotStarted)"
    and tg: "tagger c = (fst (getEC2TagsFetchFunc (prepared t1)))\<lparr>ec2TagsCache := tags\<rparr>"
    by blast
  from sch assms(2) have "0 \<le>s RefreshInterval t" by (simp split: if_splits)
  moreover have "RefreshInterval (tagger c) = RefreshInterval (prepared t1)"
    by (simp add: tg getEC2TagsFetchFunc_frame)
  ultimately have pos: "0 <s RefreshInterval (tagger c)"
    using prepared_refreshing [of t1] getEC2Metadata_frame(3) [OF md] by simp
  from pos refreshTags_positive [OF pos] show ?thesis by simp
qed

lemma mdKeys_distinct:
  "mdKeyInstanceId \<noteq> mdKeyImageId" "mdKeyInstanceId \<noteq> mdKeyInstaneType"
  "mdKeyImageId \<noteq> mdKeyInstaneType"
  "cwDimensionASG \<noteq> mdKeyInstanceId" "cwDimensionASG \<noteq> mdKeyImageId"
  "cwDimensionASG \<noteq> mdKeyInstaneType" "cwDimensionASG \<noteq> ec2InstanceTagKeyASG"
  by (simp_all add: mdKeyInstanceId_def mdKeyImageId_def mdKeyInstaneType_def
        cwDimensionASG_def ec2InstanceTagKeyASG_def)

lemma identityTags_Nil: "identityTags t [] = Map.empty"
  by (simp add: identityTags_def)

lemma identityTags_Cons:
  "tags(mdKeyInstanceId \<mapsto> instanceId t) ++ identityTags t names
     = tags ++ identityTags t (mdKeyInstanceId # names)"
  "tags(mdKeyImageId \<mapsto> imageId t) ++ identityTags t names
     = tags ++ identityTags t (mdKeyImageId # names)"
  "tags(mdKeyInstaneType \<mapsto> instanceType t) ++ identityTags t names
     = tags ++ identityTags t (mdKeyInstaneType # names)"
  using mdKeys_distinct
  by (auto simp: fun_eq_iff map_add_def identityTags_def split: option.splits)

lemma AddTag_tags:
  "(AddTag metric k v)\<lparr>metricTags := metricTags (AddTag metric k v) ++ others\<rparr>
     = metric\<lparr>metricTags := (metricTags metric)(k \<mapsto> v) ++ others\<rparr>"
  by (simp add: AddTag_def)

lemma applyMetadataTags_supported:
  "set names \<subseteq> {mdKeyInstanceId, mdKeyInstaneType, mdKeyImageId} \<Longrightarrow>
   applyMetadataTags t names metric =
     Inr (metric\<lparr>metricTags := metricTags metric ++ identityTags t names\<rparr>)"
proof (induction names arbitrary: metric)
  case Nil
  then show ?case by (simp add: identityTags_Nil)
next
  case (Cons name names)
  then have rest: "set names \<subseteq> {mdKeyInstanceId, mdKeyInstaneType, mdKeyImageId}"
    and name: "name = mdKeyInstanceId \<or> name = mdKeyInstaneType \<or> name = mdKeyImageId"
    by auto
  note ih = Cons.IH [OF rest]
  from name show ?case
  proof (elim disjE)
    assume n: "name = mdKeyInstanceId"
    have "applyMetadataTags t (name # names) metric =
            applyMetadataTags t names (AddTag metric mdKeyInstanceId (instanceId t))"
      using n by simp
    then show ?thesis
      unfolding ih AddTag_tags identityTags_Cons n .
  next
    assume n: "name = mdKeyInstaneType"
    have "applyMetadataTags t (name # names) metric =
            applyMetadataTags t names (AddTag metric mdKeyInstaneType (instanceType t))"
      using n mdKeys_distinct by simp
    then show ?thesis
      unfolding ih AddTag_tags identityTags_Cons n .
  next
    assume n: "name = mdKeyImageId"
    have "applyMetadataTags t (name # names) metric =
            applyMetadataTags t names (AddTag metric mdKeyImageId (imageId t))"
      using n mdKeys_distinct by simp
    then show ?thesis
      unfolding ih AddTag_tags identityTags_Cons n .
  qed
qed

lemma dom_identityTags: "dom (identityTags t names) \<subseteq> set names"
  by (auto simp: identityTags_def split: if_splits)

lemma Apply_supported:
  assumes "set (EC2MetadataTags t) \<subseteq> {mdKeyInstanceId, mdKeyInstaneType, mdKeyImageId}"
  shows "Apply t ins =
     Inr (map (\<lambda>metric. metric\<lparr>metricTags := metricTags metric ++ ec2TagsCache t
                                      ++ identityTags t (EC2MetadataTags t)\<rparr>) ins)"
proof -
  have "applyMetrics t tags ins =
     Inr (map (\<lambda>metric. metric\<lparr>metricTags := metricTags metric ++ tags
                                      ++ identityTags t (EC2MetadataTags t)\<rparr>) ins)" for tags
    by (induction ins) (simp_all add: applyMetadataTags_supported [OF assms] addCachedTags_def)
  then show ?thesis by (simp add: Apply_def)
qed

lemma renamed_key_not_provider: "fst (renamed tag) \<noteq> ec2InstanceTagKeyASG"
  using mdKeys_distinct(7) by (simp add: renamed_def)

lemma renamed_group_name: "renamed \<lparr>Key = ec2InstanceTagKeyASG, Value = v\<rparr> = (cwDimensionASG, v)"
  by (simp add: renamed_def)

lemma flatUnion_provider_key: "flatUnion pages ec2InstanceTagKeyASG = None"
  unfolding flatUnion_def map_of_eq_None_iff
  using renamed_key_not_provider [THEN not_sym] by (auto simp: image_iff)

lemma flatUnion_last_group_name:
  assumes "concat pages = before @ \<lparr>Key = ec2InstanceTagKeyASG, Value = v\<rparr> # after"
      and "\<forall>tag \<in> set after. Key tag \<noteq> ec2InstanceTagKeyASG \<and> Key tag \<noteq> cwDimensionASG"
  shows "flatUnion pages cwDimensionASG = Some v"
proof -
  have "cwDimensionASG \<notin> fst ` set (rev (map renamed after))"
    using assms(2) by (auto simp: renamed_def image_iff)
  then have none: "map_of (rev (map renamed after)) cwDimensionASG = None"
    by (simp only: map_of_eq_None_iff not_False_eq_True)
  have "flatUnion pages =
          map_of (rev (map renamed after) @ (cwDimensionASG, v) # rev (map renamed before))"
    by (simp add: flatUnion_def assms(1) renamed_group_name)
  then show ?thesis
    using none by (simp add: map_add_def)
qed

lemma applyMetadataTags_other_keys:
  "applyMetadataTags t names metric = Inr metric' \<Longrightarrow>
   k \<noteq> mdKeyInstanceId \<Longrightarrow> k \<noteq> mdKeyImageId \<Longrightarrow> k \<noteq> mdKeyInstaneType \<Longrightarrow>
   metricTags metric' k = metricTags metric k"
proof (induction names arbitrary: metric)
  case Nil
  then show ?case by simp
next
  case (Cons name names)
  from Cons.prems(1) obtain v where
    step: "applyMetadataTags t names (AddTag metric name v) = Inr metric'"
    and name: "name = mdKeyInstanceId \<or> name = mdKeyImageId \<or> name = mdKeyInstaneType"
    by (auto split: if_splits)
  from Cons.IH [OF step Cons.prems(2-4)] name Cons.prems(2-4)
  show ?case by (auto simp: AddTag_def)
qed

lemma applyMetrics_elements:
  "applyMetrics t tags ins = Inr outs \<Longrightarrow> metric' \<in> set outs \<Longrightarrow>
   \<exists>metric \<in> set ins.
     applyMetadataTags t (EC2MetadataTags t) (addCachedTags tags metric) = Inr metric'"
proof (induction ins arbitrary: outs)
  case Nil
  then show ?case by simp
next
  case (Cons m ins)
  from Cons.prems(1) obtain m' rest' where
    m: "applyMetadataTags t (EC2MetadataTags t) (addCachedTags tags m) = Inr m'"
    and r: "applyMetrics t tags ins = Inr rest'" and o: "outs = m' # rest'"
    by (auto split: sum.splits)
  from Cons.prems(2) o have "metric' = m' \<or> metric' \<in> set rest'" by auto
  then show ?case
  proof
    assume "metric' = m'"
    with m show ?thesis by auto
  next
    assume "metric' \<in> set rest'"
    from Cons.IH [OF r this] show ?thesis by auto
  qed
qed

lemma Apply_exposes_group_name:
  assumes "Apply t ins = Inr outs" and "metric' \<in> set outs"
      and "ec2TagsCache t cwDimensionASG = Some v"
  shows "metricTags metric' cwDimensionASG = Some v"
proof -
  from assms(1) have "applyMetrics t (ec2TagsCache t) ins = Inr outs"
    by (simp add: Apply_def)
  from applyMetrics_elements [OF this assms(2)]
  obtain metric where
    m: "applyMetadataTags t (EC2MetadataTags t) (addCachedTags (ec2TagsCache t) metric) = Inr metric'"
    by blast
  from applyMetadataTags_other_keys [OF m mdKeys_distinct(4) mdKeys_distinct(5) mdKeys_distinct(6)]
  show ?thesis using assms(3) by (simp add: addCachedTags_def map_add_def)
qed

section \<open>The properties\<close>

subsection \<open>C1: Apply right after Start\<close>

text \<open>
  Claim C1, as amended.  Let \<^verbatim>\<open>Start\<close> succeed with at least one tag key configured,
  and let every configured metadata name be one of InstanceId, InstanceType and ImageId.
  Then the cache holds the outcome of the one fetch made, the identity fields of the
  Tagger are those of the identity document, and \<^verbatim>\<open>Apply\<close> on a metric without tags
  returns it with the tags of the cache and, added after them, under each configured
  metadata name the identity field that belongs to it.  Provided no key of the cache is
  a configured metadata name, these tags are exactly the pairs of the cache together
  with the pairs of name and identity field, and no others.
\<close>

theorem Apply_after_Start:
  assumes "Start t = Some (None, c)" and "EC2InstanceTagKeys t \<noteq> []"
      and "set (EC2MetadataTags t) \<subseteq> {mdKeyInstanceId, mdKeyInstaneType, mdKeyImageId}"
  shows "fetches c = [Inr (ec2TagsCache (tagger c))]
         \<and> GetInstanceIdentityDocument (newEC2Metadata (apiProvider t)) =
             Inr \<lparr>InstanceID = instanceId (tagger c), InstanceType = instanceType (tagger c),
                  ImageID = imageId (tagger c), Region = region (tagger c)\<rparr>
         \<and> Apply (tagger c) [\<lparr>metricName = n, metricTags = Map.empty\<rparr>] =
             Inr [\<lparr>metricName = n,
                   metricTags = ec2TagsCache (tagger c)
                                  ++ identityTags (tagger c) (EC2MetadataTags t)\<rparr>]
         \<and> (dom (ec2TagsCache (tagger c)) \<inter> set (EC2MetadataTags t) = {} \<longrightarrow>
               Map.graph (ec2TagsCache (tagger c) ++ identityTags (tagger c) (EC2MetadataTags t))
                 = Map.graph (ec2TagsCache (tagger c))
                   \<union> Map.graph (identityTags (tagger c) (EC2MetadataTags t)))"
proof -
  obtain e1 t1 where md: "getEC2Metadata t = (e1, t1)" by (cases "getEC2Metadata t")
  have "e1 = None"
  proof (cases e1)
    case None
    then show ?thesis .
  next
    case (Some err)
    with md Start_metadata_error [of t err t1] assms(1) show ?thesis by simp
  qed
  with md have md: "getEC2Metadata t = (None, t1)" by simp
  from getEC2Metadata_ok [OF md]
  obtain doc where doc: "GetInstanceIdentityDocument (newEC2Metadata (apiProvider t)) = Inr doc"
    and t1: "t1 = t\<lparr>instanceId := InstanceID doc, instanceType := InstanceType doc,
                      imageId := ImageID doc, region := Region doc\<rparr>"
    by blast
  from Start_keys_ok [OF md assms(2) assms(1)]
  obtain tags where f: "fetches c = [Inr tags]"
    and tg: "tagger c = (fst (getEC2TagsFetchFunc (prepared t1)))\<lparr>ec2TagsCache := tags\<rparr>"
    by blast
  have cache: "ec2TagsCache (tagger c) = tags" by (simp add: tg)
  have mdt: "EC2MetadataTags (tagger c) = EC2MetadataTags t"
    by (simp add: tg getEC2TagsFetchFunc_frame prepared_frame t1)
  have ident: "instanceId (tagger c) = InstanceID doc" "instanceType (tagger c) = InstanceType doc"
    "imageId (tagger c) = ImageID doc"
    by (simp_all add: tg getEC2TagsFetchFunc_frame prepared_frame t1)
  have reg: "region (tagger c) = Region doc"
    by (simp add: tg getEC2TagsFetchFunc_tagger prepared_def Let_def t1)
  have d: "doc = \<lparr>InstanceID = instanceId (tagger c), InstanceType = instanceType (tagger c),
                  ImageID = imageId (tagger c), Region = region (tagger c)\<rparr>"
    by (simp add: ident reg)
  have sup: "set (EC2MetadataTags (tagger c)) \<subseteq> {mdKeyInstanceId, mdKeyInstaneType, mdKeyImageId}"
    using assms(3) mdt by simp
  have ap: "Apply (tagger c) [\<lparr>metricName = n, metricTags = Map.empty\<rparr>] =
             Inr [\<lparr>metricName = n,
                   metricTags = ec2TagsCache (tagger c)
                                  ++ identityTags (tagger c) (EC2MetadataTags t)\<rparr>]"
    by (simp add: Apply_supported [OF sup] mdt)
  have gr: "Map.graph (ec2TagsCache (tagger c) ++ identityTags (tagger c) (EC2MetadataTags t))
                 = Map.graph (ec2TagsCache (tagger c))
                   \<union> Map.graph (identityTags (tagger c) (EC2MetadataTags t))"
    if "dom (ec2TagsCache (tagger c)) \<inter> set (EC2MetadataTags t) = {}"
  proof (rule graph_map_add)
    from that dom_identityTags [of "tagger c" "EC2MetadataTags t"]
    show "dom (ec2TagsCache (tagger c)) \<inter> dom (identityTags (tagger c) (EC2MetadataTags t)) = {}"
      by blast
  qed
  from f cache doc d ap gr show ?thesis by simp
qed

text \<open>The theorem on the scenario, with all three metadata names and the wildcard.\<close>

theorem Apply_after_Start_witness:
  "EC2InstanceTagKeys (configured Second [mdKeyInstanceId, mdKeyInstaneType, mdKeyImageId]
                         [''*''] scenarioAPI) \<noteq> []
   \<and> set (EC2MetadataTags (configured Second [mdKeyInstanceId, mdKeyInstaneType, mdKeyImageId]
                             [''*''] scenarioAPI))
       \<subseteq> {mdKeyInstanceId, mdKeyInstaneType, mdKeyImageId}
   \<and> (\<exists>c. Start (configured Second [mdKeyInstanceId, mdKeyInstaneType, mdKeyImageId]
                     [''*''] scenarioAPI) = Some (None, c)
          \<and> dom (ec2TagsCache (tagger c))
               \<inter> set (EC2MetadataTags (configured Second
                        [mdKeyInstanceId, mdKeyInstaneType, mdKeyImageId] [''*''] scenarioAPI)) = {}
          \<and> Map.graph (ec2TagsCache (tagger c)
                          ++ identityTags (tagger c) (EC2MetadataTags (configured Second
                               [mdKeyInstanceId, mdKeyInstaneType, mdKeyImageId] [''*''] scenarioAPI)))
              = Map.graph (ec2TagsCache (tagger c))
                \<union> Map.graph (identityTags (tagger c) (EC2MetadataTags (configured Second
                               [mdKeyInstanceId, mdKeyInstaneType, mdKeyImageId] [''*''] scenarioAPI)))
          \<and> Apply (tagger c) [\<lparr>metricName = ''TESTMETRIC'', metricTags = Map.empty\<rparr>] =
              Inr [\<lparr>metricName = ''TESTMETRIC'',
                    metricTags = [''A'' \<mapsto> ''1'', ''B'' \<mapsto> ''2'', ''InstanceId'' \<mapsto> ''I1'',
                                  ''InstanceType'' \<mapsto> ''T1'', ''ImageId'' \<mapsto> ''M1'']\<rparr>])"
proof -
  let ?md = "[mdKeyInstanceId, mdKeyInstaneType, mdKeyImageId]"
  let ?t = "configured Second ?md [''*''] scenarioAPI"
  have h2: "EC2InstanceTagKeys ?t \<noteq> []" by (simp add: scenario_fields)
  have h3: "set (EC2MetadataTags ?t) \<subseteq> {mdKeyInstanceId, mdKeyInstaneType, mdKeyImageId}"
    by (simp add: scenario_fields)
  obtain c where h1: "Start ?t = Some (None, c)"
    using scenario_Start [of "[''*'']" Second ?md] by auto
  note main = Apply_after_Start [OF h1 h2 h3, of "''TESTMETRIC''"]
  from Start_keys_ok [OF scenario_metadata h2 h1]
  obtain tags where f: "fetches c = [Inr tags]"
    and ff: "fetchFunc (fst (snd (getEC2TagsFetchFunc (prepared
               (?t\<lparr>instanceId := ''I1'', instanceType := ''T1'', imageId := ''M1'',
                    region := ''R1''\<rparr>)))))
             (snd (snd (getEC2TagsFetchFunc (prepared
               (?t\<lparr>instanceId := ''I1'', instanceType := ''T1'', imageId := ''M1'',
                    region := ''R1''\<rparr>))))) = Some (Inr tags)"
    by blast
  have "fst (snd (getEC2TagsFetchFunc (prepared
               (?t\<lparr>instanceId := ''I1'', instanceType := ''T1'', imageId := ''M1'',
                    region := ''R1''\<rparr>)))) = scenarioAPI"
    by (rule scenario_client) (simp add: scenario_fields)
  with ff have tags: "tags = flatUnion [[\<lparr>Key = ''A'', Value = ''1''\<rparr>, \<lparr>Key = ''B'', Value = ''2''\<rparr>]]"
    by (simp add: scenario_fetch)
  from main f have cache: "ec2TagsCache (tagger c) = tags" by simp
  from main have "Inr scenarioDoc =
             (Inr \<lparr>InstanceID = instanceId (tagger c), InstanceType = instanceType (tagger c),
                  ImageID = imageId (tagger c), Region = region (tagger c)\<rparr>
              :: error + EC2InstanceIdentityDocument)"
    by (simp add: scenario_fields scenarioProvider_def)
  then have ident: "instanceId (tagger c) = ''I1''" "instanceType (tagger c) = ''T1''"
    "imageId (tagger c) = ''M1''"
    by (simp_all add: scenarioDoc_def)
  have "ec2TagsCache (tagger c) ++ identityTags (tagger c) (EC2MetadataTags ?t)
          = [''A'' \<mapsto> ''1'', ''B'' \<mapsto> ''2'', ''InstanceId'' \<mapsto> ''I1'',
             ''InstanceType'' \<mapsto> ''T1'', ''ImageId'' \<mapsto> ''M1'']"
    by (auto simp: fun_eq_iff cache tags flatUnion_def renamed_def map_add_def identityTags_def
          ident scenario_fields mdKeyInstanceId_def mdKeyImageId_def mdKeyInstaneType_def
          ec2InstanceTagKeyASG_def split: option.splits)
  moreover have "dom (ec2TagsCache (tagger c)) \<inter> set (EC2MetadataTags ?t) = {}"
    by (auto simp: cache tags flatUnion_def renamed_def scenario_fields mdKeyInstanceId_def
          mdKeyImageId_def mdKeyInstaneType_def ec2InstanceTagKeyASG_def split: if_splits)
  ultimately show ?thesis using main h1 h2 h3 by auto
qed

text \<open>
  The claim as written fails on an instance that carries a tag named InstanceId, with
  InstanceId among the configured metadata names: \<^verbatim>\<open>Start\<close> succeeds, the cache holds
  the pair of InstanceId and fromtag, and the metric comes back with the identity I1
  under InstanceId, so one pair of the cache is not among its tags.
\<close>

theorem cached_pair_shadowed_counterexample:
  "startThenApply (configured Second [mdKeyInstanceId] [''*''] shadowingAPI)
       [\<lparr>metricName = ''TESTMETRIC'', metricTags = Map.empty\<rparr>]
     = Some (None, [''InstanceId'' \<mapsto> ''fromtag'', ''A'' \<mapsto> ''1''],
             Inr [\<lparr>metricName = ''TESTMETRIC'',
                   metricTags = [''InstanceId'' \<mapsto> ''I1'', ''A'' \<mapsto> ''1'']\<rparr>])"
proof -
  let ?t = "configured Second [mdKeyInstanceId] [''*''] shadowingAPI"
  let ?tags = "[''InstanceId'' \<mapsto> ''fromtag'', ''A'' \<mapsto> ''1'']"
  from configured_Start [of "[''*'']" shadowingAPI ?tags Second "[mdKeyInstanceId]"] shadowing_fetch
  obtain c where s: "Start ?t = Some (None, c)" and cache: "ec2TagsCache (tagger c) = ?tags"
    and mdt: "EC2MetadataTags (tagger c) = [mdKeyInstanceId]"
    and iid: "instanceId (tagger c) = ''I1''"
    by auto
  have sup: "set (EC2MetadataTags (tagger c)) \<subseteq> {mdKeyInstanceId, mdKeyInstaneType, mdKeyImageId}"
    by (simp add: mdt)
  have m: "?tags ++ identityTags (tagger c) [mdKeyInstanceId]
             = [''InstanceId'' \<mapsto> ''I1'', ''A'' \<mapsto> ''1'']"
    by (auto simp: fun_eq_iff map_add_def identityTags_def iid mdKeyInstanceId_def
          split: option.splits)
  have ap: "Apply (tagger c) [\<lparr>metricName = ''TESTMETRIC'', metricTags = Map.empty\<rparr>]
              = Inr [\<lparr>metricName = ''TESTMETRIC'',
                     metricTags = [''InstanceId'' \<mapsto> ''I1'', ''A'' \<mapsto> ''1'']\<rparr>]"
    unfolding Apply_supported [OF sup] mdt cache using m by simp
  show ?thesis
    unfolding startThenApply_def s using cache ap by simp
qed

subsection \<open>C2: a refresh that fails\<close>

text \<open>
  Claim C2.  Let the loop of \<^verbatim>\<open>refreshTags\<close> have taken any events and still be
  running.  Ticks on which the refresh function returns an error, however many, leave
  the whole Tagger, and so its cache, as it was, and the loop keeps running; the next
  tick on which the refresh function returns a mapping puts exactly that mapping in
  the cache.
\<close>

theorem refresh_error_keeps_cache:
  assumes "refreshTags hostname t pre = Inr (t1, Running)"
  shows "refreshTags hostname t (pre @ map (\<lambda>err. Tick (Inl err)) errs) = Inr (t1, Running)
         \<and> refreshTags hostname t (pre @ map (\<lambda>err. Tick (Inl err)) errs @ [Tick (Inr newTags)])
             = Inr (t1\<lparr>ec2TagsCache := newTags\<rparr>, Running)"
proof -
  have pre: "refreshLoop t pre = (t1, Running)"
    using refreshTags_loop [OF assms, of pre] by simp
  have a: "refreshLoop t (pre @ map (\<lambda>err. Tick (Inl err)) errs) = (t1, Running)"
    by (simp add: refreshLoop_append pre refreshLoop_errors)
  have "refreshLoop t ((pre @ map (\<lambda>err. Tick (Inl err)) errs) @ [Tick (Inr newTags)])
          = (t1\<lparr>ec2TagsCache := newTags\<rparr>, Running)"
    by (subst refreshLoop_append) (simp add: a)
  then have b: "refreshLoop t (pre @ map (\<lambda>err. Tick (Inl err)) errs @ [Tick (Inr newTags)])
          = (t1\<lparr>ec2TagsCache := newTags\<rparr>, Running)"
    by simp
  show ?thesis
    using refreshTags_loop [OF assms, of "pre @ map (\<lambda>err. Tick (Inl err)) errs"]
      refreshTags_loop [OF assms, of "pre @ map (\<lambda>err. Tick (Inl err)) errs @ [Tick (Inr newTags)]"]
      a b by simp
qed

text \<open>The theorem on a cache A:1, a failed tick, and a tick that brings A:2.\<close>

theorem refresh_error_keeps_cache_witness:
  "refreshTags ''ip-10-0-0-7'' (configured Second [] [''*''] scenarioAPI)
      [Tick (Inr [''A'' \<mapsto> ''1''])]
     = Inr ((configured Second [] [''*''] scenarioAPI)\<lparr>ec2TagsCache := [''A'' \<mapsto> ''1'']\<rparr>, Running)
   \<and> refreshTags ''ip-10-0-0-7'' (configured Second [] [''*''] scenarioAPI)
      [Tick (Inr [''A'' \<mapsto> ''1'']), Tick (Inl (ServiceError ''RequestLimitExceeded''))]
     = Inr ((configured Second [] [''*''] scenarioAPI)\<lparr>ec2TagsCache := [''A'' \<mapsto> ''1'']\<rparr>, Running)
   \<and> refreshTags ''ip-10-0-0-7'' (configured Second [] [''*''] scenarioAPI)
      [Tick (Inr [''A'' \<mapsto> ''1'']), Tick (Inl (ServiceError ''RequestLimitExceeded'')),
       Tick (Inr [''A'' \<mapsto> ''2''])]
     = Inr ((configured Second [] [''*''] scenarioAPI)\<lparr>ec2TagsCache := [''A'' \<mapsto> ''2'']\<rparr>, Running)"
proof -
  let ?t = "configured Second [] [''*''] scenarioAPI"
  have "0 <s RefreshInterval ?t"
    by (simp add: scenario_fields Second_def word_sless_alt)
  from refreshTags_positive [OF this, of "''ip-10-0-0-7''" "[Tick (Inr [''A'' \<mapsto> ''1''])]"]
  have h: "refreshTags ''ip-10-0-0-7'' ?t [Tick (Inr [''A'' \<mapsto> ''1''])]
             = Inr (?t\<lparr>ec2TagsCache := [''A'' \<mapsto> ''1'']\<rparr>, Running)"
    by simp
  from refresh_error_keeps_cache [OF h, of "[ServiceError ''RequestLimitExceeded'']" "[''A'' \<mapsto> ''2'']"] h
  show ?thesis by simp
qed

subsection \<open>C3: the jitter\<close>

text \<open>
  Claim C3, as amended.  For every strictly positive duration and every host name the
  jitter is returned and lies between 0 inclusive and the duration exclusive; it is the
  host-name hash with its sign bit shifted out, modulo the duration, and so a function of
  host name and duration alone.  (For the duration 0, which the claim as written
  includes, the modulo panics.)
\<close>

theorem hostJitter_in_range:
  assumes "0 <s mx"
  shows "\<exists>j. hostJitter hostname mx = Inr j \<and> 0 \<le>s j \<and> j <s mx
           \<and> sint j = uint (drop_bit 1 (fnv64Write offset64 hostname)) mod sint mx"
proof -
  define x where "x = uint (drop_bit 1 (fnv64Write offset64 hostname))"
  define m where "m = sint mx"
  from assms have m: "0 < m" by (simp add: word_sless_alt m_def)
  then have nz: "mx \<noteq> 0" by (auto simp: m_def)
  have x: "0 \<le> x" by (simp add: x_def)
  have sm: "x smod m = x mod m"
  proof (cases "x = 0")
    case True
    then show ?thesis by (simp add: smod_int_alt_def)
  next
    case False
    with x have "0 < x" by simp
    then show ?thesis using m by (simp add: smod_int_alt_def)
  qed
  have lo: "0 \<le> x mod m" using m by simp
  have hi: "x mod m < m" using m by simp
  have "m < 2 ^ 63" using sint_lt [of mx] by (simp add: m_def)
  with hi have hi': "x mod m < 2 ^ 63" by linarith
  have sj: "sint (word_of_int (x mod m) :: 64 word) = x mod m"
    using lo hi' by (rule sint_small)
  have "hostJitter hostname mx = Inr (word_of_int (x mod m))"
    using sm hostJitter_nonzero [OF nz, of hostname] by (simp add: x_def m_def)
  moreover have "0 \<le>s (word_of_int (x mod m) :: 64 word)"
    using sj lo by (simp add: word_sle_eq)
  moreover have "(word_of_int (x mod m) :: 64 word) <s mx"
    using sj hi by (simp add: word_sless_alt m_def)
  ultimately show ?thesis using sj unfolding x_def m_def by blast
qed

text \<open>The theorem at one minute, on the host ip-10-0-0-7.\<close>

theorem hostJitter_in_range_witness:
  "(0 :: Duration) <s 60 * Second
   \<and> (\<exists>j. hostJitter ''ip-10-0-0-7'' (60 * Second) = Inr j \<and> 0 \<le>s j \<and> j <s 60 * Second
           \<and> sint j = uint (drop_bit 1 (fnv64Write offset64 ''ip-10-0-0-7''))
                        mod sint (60 * Second))"
proof -
  have h: "(0 :: Duration) <s 60 * Second" by (simp add: word_sless_alt Second_def)
  show ?thesis using h hostJitter_in_range [OF h, of "''ip-10-0-0-7''"] by blast
qed

text \<open>
  The claim as written covers the duration 0, which is not negative: there the function
  returns no value at all.
\<close>

theorem hostJitter_zero_counterexample:
  "hostJitter ''ip-10-0-0-7'' 0 = Inl IntegerDivideByZero"
  by (simp add: hostJitter_def)

subsection \<open>C4: the filter list\<close>

text \<open>
  Claim C4.  The filter list that \<^verbatim>\<open>getEC2TagsFetchFunc\<close> builds is the resource-type
  filter for "instance", the resource-id filter for the instance id held by the Tagger,
  and then: nothing more when the configured keys are exactly the wildcard; otherwise one
  key filter, whose values are the configured keys in their order with every
  AutoScalingGroupName replaced by aws:autoscaling:groupName.
\<close>

theorem tagFilters_built:
  "snd (snd (getEC2TagsFetchFunc t)) =
     [\<lparr>Name = ''resource-type'', Values = [''instance'']\<rparr>,
      \<lparr>Name = ''resource-id'', Values = [instanceId t]\<rparr>]
     @ (if EC2InstanceTagKeys t = [''*''] then []
        else [\<lparr>Name = ''key'',
               Values = map (\<lambda>key. if key = ''AutoScalingGroupName''
                                    then ''aws:autoscaling:groupName'' else key)
                            (EC2InstanceTagKeys t)\<rparr>])"
proof -
  have "translateKey = (\<lambda>key. if key = ''AutoScalingGroupName''
                                then ''aws:autoscaling:groupName'' else key)"
    by (simp add: fun_eq_iff translateKey_def cwDimensionASG_def ec2InstanceTagKeyASG_def)
  then show ?thesis using getEC2TagsFetchFunc_filters [of t] by simp
qed

subsection \<open>C5: the renaming in both directions\<close>

text \<open>
  Claim C5, as amended.  Let the tag service answer the fetch with pages that all
  succeed, and let one of the tags served have the key aws:autoscaling:groupName, with
  no tag after it whose key is that key again or AutoScalingGroupName.  Then the fetched
  mapping holds its value under AutoScalingGroupName and holds nothing under
  aws:autoscaling:groupName, and \<^verbatim>\<open>Apply\<close> with that mapping as cache puts the value on
  every metric under AutoScalingGroupName.  In the other direction, when
  AutoScalingGroupName is among the configured keys, the filter list has a key filter
  that contains aws:autoscaling:groupName and does not contain AutoScalingGroupName.
\<close>

theorem renaming_both_ways:
  "(servesPages ec2Client \<lparr>Filters = tagFilters, NextToken = None\<rparr> pages (Inr page)
      \<and> concat (map fst pages @ [page])
          = before @ \<lparr>Key = ec2InstanceTagKeyASG, Value = v\<rparr> # after
      \<and> (\<forall>tag \<in> set after. Key tag \<noteq> ec2InstanceTagKeyASG \<and> Key tag \<noteq> cwDimensionASG)
    \<longrightarrow> (\<exists>m. fetchFunc ec2Client tagFilters = Some (Inr m)
              \<and> m cwDimensionASG = Some v \<and> m ec2InstanceTagKeyASG = None
              \<and> (\<forall>ins outs. Apply (u\<lparr>ec2TagsCache := m\<rparr>) ins = Inr outs \<longrightarrow>
                    (\<forall>metric \<in> set outs. metricTags metric cwDimensionASG = Some v))))
   \<and> (cwDimensionASG \<in> set (EC2InstanceTagKeys t)
    \<longrightarrow> (\<exists>f \<in> set (snd (snd (getEC2TagsFetchFunc t))).
            Name f = ''key'' \<and> ec2InstanceTagKeyASG \<in> set (Values f)
            \<and> cwDimensionASG \<notin> set (Values f)))"
proof (intro conjI impI)
  assume a: "servesPages ec2Client \<lparr>Filters = tagFilters, NextToken = None\<rparr> pages (Inr page)
      \<and> concat (map fst pages @ [page])
          = before @ \<lparr>Key = ec2InstanceTagKeyASG, Value = v\<rparr> # after
      \<and> (\<forall>tag \<in> set after. Key tag \<noteq> ec2InstanceTagKeyASG \<and> Key tag \<noteq> cwDimensionASG)"
  let ?m = "flatUnion (map fst pages @ [page])"
  have f: "fetchFunc ec2Client tagFilters = Some (Inr ?m)"
    using fetchFunc_pages [of ec2Client tagFilters pages "Inr page"] a by simp
  have g: "?m cwDimensionASG = Some v"
    using flatUnion_last_group_name [of "map fst pages @ [page]" before v after] a by blast
  have p: "?m ec2InstanceTagKeyASG = None" by (rule flatUnion_provider_key)
  have "\<forall>ins outs. Apply (u\<lparr>ec2TagsCache := ?m\<rparr>) ins = Inr outs \<longrightarrow>
          (\<forall>metric \<in> set outs. metricTags metric cwDimensionASG = Some v)"
    using Apply_exposes_group_name [of "u\<lparr>ec2TagsCache := ?m\<rparr>" _ _ _ v] g by auto
  with f g p show "\<exists>m. fetchFunc ec2Client tagFilters = Some (Inr m)
              \<and> m cwDimensionASG = Some v \<and> m ec2InstanceTagKeyASG = None
              \<and> (\<forall>ins outs. Apply (u\<lparr>ec2TagsCache := m\<rparr>) ins = Inr outs \<longrightarrow>
                    (\<forall>metric \<in> set outs. metricTags metric cwDimensionASG = Some v))"
    by blast
next
  assume k: "cwDimensionASG \<in> set (EC2InstanceTagKeys t)"
  then have nw: "EC2InstanceTagKeys t \<noteq> [''*'']"
    by (auto simp: cwDimensionASG_def)
  let ?f = "\<lparr>Name = ''key'', Values = map translateKey (EC2InstanceTagKeys t)\<rparr>"
  have "?f \<in> set (snd (snd (getEC2TagsFetchFunc t)))"
    using nw by (simp add: getEC2TagsFetchFunc_filters)
  moreover have "ec2InstanceTagKeyASG \<in> set (Values ?f)"
    using k by (force simp: translateKey_def)
  moreover have "cwDimensionASG \<notin> set (Values ?f)"
    using mdKeys_distinct(7) by (auto simp: translateKey_def)
  ultimately show "\<exists>f \<in> set (snd (snd (getEC2TagsFetchFunc t))).
            Name f = ''key'' \<and> ec2InstanceTagKeyASG \<in> set (Values f)
            \<and> cwDimensionASG \<notin> set (Values f)"
    by (intro bexI [of _ ?f]) simp_all
qed

text \<open>The theorem on the service with two pages, and on the configured key AutoScalingGroupName.\<close>

theorem renaming_both_ways_witness:
  "servesPages pagedAPI \<lparr>Filters = [], NextToken = None\<rparr>
       [([\<lparr>Key = ''A'', Value = ''1''\<rparr>, \<lparr>Key = ec2InstanceTagKeyASG, Value = ''G1''\<rparr>], ''p2'')]
       (Inr [\<lparr>Key = ''B'', Value = ''2''\<rparr>])
   \<and> concat (map fst [([\<lparr>Key = ''A'', Value = ''1''\<rparr>,
                         \<lparr>Key = ec2InstanceTagKeyASG, Value = ''G1''\<rparr>], ''p2'')]
              @ [[\<lparr>Key = ''B'', Value = ''2''\<rparr>]])
       = [\<lparr>Key = ''A'', Value = ''1''\<rparr>] @ \<lparr>Key = ec2InstanceTagKeyASG, Value = ''G1''\<rparr>
           # [\<lparr>Key = ''B'', Value = ''2''\<rparr>]
   \<and> (\<exists>m. fetchFunc pagedAPI [] = Some (Inr m)
          \<and> m cwDimensionASG = Some ''G1'' \<and> m ec2InstanceTagKeyASG = None
          \<and> Apply ((configured Second [] [cwDimensionASG] pagedAPI)\<lparr>ec2TagsCache := m\<rparr>)
               [\<lparr>metricName = ''TESTMETRIC'', metricTags = Map.empty\<rparr>]
              = Inr [\<lparr>metricName = ''TESTMETRIC'', metricTags = m\<rparr>])
   \<and> cwDimensionASG \<in> set (EC2InstanceTagKeys (configured Second [] [cwDimensionASG] pagedAPI))
   \<and> snd (snd (getEC2TagsFetchFunc (configured Second [] [cwDimensionASG] pagedAPI)))
       = [\<lparr>Name = ''resource-type'', Values = [''instance'']\<rparr>,
          \<lparr>Name = ''resource-id'', Values = [[]]\<rparr>,
          \<lparr>Name = ''key'', Values = [ec2InstanceTagKeyASG]\<rparr>]"
proof -
  let ?t = "configured Second [] [cwDimensionASG] pagedAPI"
  have s: "servesPages pagedAPI \<lparr>Filters = [], NextToken = None\<rparr>
       [([\<lparr>Key = ''A'', Value = ''1''\<rparr>, \<lparr>Key = ec2InstanceTagKeyASG, Value = ''G1''\<rparr>], ''p2'')]
       (Inr [\<lparr>Key = ''B'', Value = ''2''\<rparr>])"
    by (simp add: pagedAPI_def)
  have c: "concat (map fst [([\<lparr>Key = ''A'', Value = ''1''\<rparr>,
                         \<lparr>Key = ec2InstanceTagKeyASG, Value = ''G1''\<rparr>], ''p2'')]
              @ [[\<lparr>Key = ''B'', Value = ''2''\<rparr>]])
       = [\<lparr>Key = ''A'', Value = ''1''\<rparr>] @ \<lparr>Key = ec2InstanceTagKeyASG, Value = ''G1''\<rparr>
           # [\<lparr>Key = ''B'', Value = ''2''\<rparr>]"
    by simp
  have a: "\<forall>tag \<in> set [\<lparr>Key = ''B'', Value = ''2''\<rparr>].
             Key tag \<noteq> ec2InstanceTagKeyASG \<and> Key tag \<noteq> cwDimensionASG"
    by (simp add: ec2InstanceTagKeyASG_def cwDimensionASG_def)
  have k: "cwDimensionASG \<in> set (EC2InstanceTagKeys ?t)" by (simp add: scenario_fields)
  from renaming_both_ways [of pagedAPI "[]" _ "[\<lparr>Key = ''B'', Value = ''2''\<rparr>]"
      "[\<lparr>Key = ''A'', Value = ''1''\<rparr>]" "''G1''" "[\<lparr>Key = ''B'', Value = ''2''\<rparr>]" ?t ?t] s c a k
  obtain m where m: "fetchFunc pagedAPI [] = Some (Inr m)" "m cwDimensionASG = Some ''G1''"
    "m ec2InstanceTagKeyASG = None"
    by blast
  have ap: "Apply (?t\<lparr>ec2TagsCache := m\<rparr>) [\<lparr>metricName = ''TESTMETRIC'', metricTags = Map.empty\<rparr>]
              = Inr [\<lparr>metricName = ''TESTMETRIC'', metricTags = m\<rparr>]"
    by (simp add: Apply_def addCachedTags_def configured_def)
  have fl: "snd (snd (getEC2TagsFetchFunc ?t))
       = [\<lparr>Name = ''resource-type'', Values = [''instance'']\<rparr>,
          \<lparr>Name = ''resource-id'', Values = [[]]\<rparr>,
          \<lparr>Name = ''key'', Values = [ec2InstanceTagKeyASG]\<rparr>]"
    by (simp add: getEC2TagsFetchFunc_filters scenario_fields translateKey_def configured_def
          cwDimensionASG_def)
  from s c m ap k fl show ?thesis by blast
qed

text \<open>
  The claim as written speaks of every tag with the key aws:autoscaling:groupName.  On
  an instance that also carries a tag named AutoScalingGroupName, served after it, the
  service returns the group name G1 and the fetched mapping holds G2 under
  AutoScalingGroupName and nothing else: the later store has replaced the earlier one.
\<close>

theorem group_name_overwritten_counterexample:
  "servesPages collidingAPI \<lparr>Filters = [], NextToken = None\<rparr> []
     (Inr [\<lparr>Key = ec2InstanceTagKeyASG, Value = ''G1''\<rparr>, \<lparr>Key = cwDimensionASG, Value = ''G2''\<rparr>])
   \<and> fetchFunc collidingAPI [] = Some (Inr [cwDimensionASG \<mapsto> ''G2''])"
proof -
  have s: "servesPages collidingAPI \<lparr>Filters = [], NextToken = None\<rparr> []
     (Inr [\<lparr>Key = ec2InstanceTagKeyASG, Value = ''G1''\<rparr>, \<lparr>Key = cwDimensionASG, Value = ''G2''\<rparr>])"
    by (simp add: collidingAPI_def)
  from fetchFunc_pages [OF s]
  have "fetchFunc collidingAPI [] = Some (Inr [cwDimensionASG \<mapsto> ''G2''])"
    by (simp add: flatUnion_def renamed_def)
  with s show ?thesis by simp
qed

subsection \<open>C6: pages and errors\<close>

text \<open>
  Claim C6.  Let the tag service answer the query of the fetch function and its
  follow-up queries with any number of pages and then with a final answer.  If the final
  answer is an error, the fetch function returns that error and no mapping, whatever the
  earlier pages held.  If it is a last page, the fetch function returns the flat union of
  the renamed entries of all the pages.
\<close>

theorem fetchFunc_pages_or_error:
  assumes "servesPages ec2Client \<lparr>Filters = tagFilters, NextToken = None\<rparr> pages final"
  shows "fetchFunc ec2Client tagFilters =
           (case final of
              Inl err \<Rightarrow> Some (Inl err)
            | Inr page \<Rightarrow> Some (Inr (flatUnion (map fst pages @ [page]))))"
  using fetchFunc_pages [OF assms] by (cases final) simp_all

text \<open>
  The theorem on a service that fails on its second page, and on one that serves two
  pages.
\<close>

theorem fetchFunc_pages_or_error_witness:
  "servesPages failingAPI \<lparr>Filters = [], NextToken = None\<rparr>
     [([\<lparr>Key = ''A'', Value = ''1''\<rparr>], ''p2'')] (Inl (ServiceError ''RequestLimitExceeded''))
   \<and> fetchFunc failingAPI [] = Some (Inl (ServiceError ''RequestLimitExceeded''))
   \<and> servesPages pagedAPI \<lparr>Filters = [], NextToken = None\<rparr>
       [([\<lparr>Key = ''A'', Value = ''1''\<rparr>, \<lparr>Key = ec2InstanceTagKeyASG, Value = ''G1''\<rparr>], ''p2'')]
       (Inr [\<lparr>Key = ''B'', Value = ''2''\<rparr>])
   \<and> fetchFunc pagedAPI [] =
       Some (Inr (flatUnion [[\<lparr>Key = ''A'', Value = ''1''\<rparr>,
                               \<lparr>Key = ec2InstanceTagKeyASG, Value = ''G1''\<rparr>],
                              [\<lparr>Key = ''B'', Value = ''2''\<rparr>]]))"
proof -
  have f: "servesPages failingAPI \<lparr>Filters = [], NextToken = None\<rparr>
     [([\<lparr>Key = ''A'', Value = ''1''\<rparr>], ''p2'')] (Inl (ServiceError ''RequestLimitExceeded''))"
    by (simp add: failingAPI_def)
  have s: "servesPages pagedAPI \<lparr>Filters = [], NextToken = None\<rparr>
       [([\<lparr>Key = ''A'', Value = ''1''\<rparr>, \<lparr>Key = ec2InstanceTagKeyASG, Value = ''G1''\<rparr>], ''p2'')]
       (Inr [\<lparr>Key = ''B'', Value = ''2''\<rparr>])"
    by (simp add: pagedAPI_def)
  show ?thesis
    using f s fetchFunc_pages_or_error [OF f] fetchFunc_pages_or_error [OF s] by simp
qed

subsection \<open>C7: a negative refresh interval\<close>

text \<open>
  Claim C7, as amended.  Let the configured refresh interval be negative and at least one
  tag key be configured.  When \<^verbatim>\<open>Start\<close> has returned, the refresh goroutine has not
  been started, and whatever calls and events follow, no goroutine runs and no further
  invocation of the fetch function is made.  The invocations made are: none, when
  \<^verbatim>\<open>Start\<close> has failed on the identity; otherwise exactly one, of the fetch function on
  the client and the filter list that \<^verbatim>\<open>getEC2TagsFetchFunc\<close> builds from the Tagger
  with the identity, and its outcome is the one recorded.  And when the identity is
  resolved and the tag service answers that query and its follow-up queries with pages
  and a final answer, \<^verbatim>\<open>Start\<close> returns and the one fetch has the outcome that the
  service has served.
\<close>

theorem negative_interval_single_fetch:
  assumes "RefreshInterval t <s 0" and "EC2InstanceTagKeys t \<noteq> []"
  shows "(Start t = Some (e, c) \<longrightarrow>
            scheduler c = NotStarted
            \<and> fetches (lifetime c acts) = fetches c
            \<and> scheduler (lifetime c acts) = NotStarted
            \<and> (case getEC2Metadata t of
                  (Some err, t1) \<Rightarrow> fetches c = []
                | (None, t1) \<Rightarrow>
                    (\<exists>out. fetchFunc (fst (snd (getEC2TagsFetchFunc t1)))
                                      (snd (snd (getEC2TagsFetchFunc t1))) = Some out
                           \<and> fetches c = [out])))
         \<and> (fst (getEC2Metadata t) = None
              \<and> servesPages (fst (snd (getEC2TagsFetchFunc (snd (getEC2Metadata t)))))
                   \<lparr>Filters = snd (snd (getEC2TagsFetchFunc (snd (getEC2Metadata t)))),
                    NextToken = None\<rparr> pages final
            \<longrightarrow> (\<exists>e' c'. Start t = Some (e', c')
                    \<and> fetches c' = [case final of
                                       Inl err \<Rightarrow> Inl err
                                     | Inr page \<Rightarrow> Inr (flatUnion (map fst pages @ [page]))]))"
proof (intro conjI impI)
  assume s: "Start t = Some (e, c)"
  obtain e1 t1 where md: "getEC2Metadata t = (e1, t1)" by (cases "getEC2Metadata t")
  from assms(1) have neg: "\<not> 0 \<le>s RefreshInterval t"
    by (simp add: word_sle_eq word_sless_alt)
  have ns_log: "scheduler c = NotStarted
      \<and> (case getEC2Metadata t of
                  (Some err, t1) \<Rightarrow> fetches c = []
                | (None, t1) \<Rightarrow>
                    (\<exists>out. fetchFunc (fst (snd (getEC2TagsFetchFunc t1)))
                                      (snd (snd (getEC2TagsFetchFunc t1))) = Some out
                           \<and> fetches c = [out]))"
  proof (cases e1)
    case (Some err)
    with md Start_metadata_error [of t err t1] s show ?thesis by auto
  next
    case None
    with md have md': "getEC2Metadata t = (None, t1)" by simp
    from Start_keys_returned [OF md' assms(2) s]
    obtain out where o: "fetches c = [out]"
      and f: "fetchFunc (fst (snd (getEC2TagsFetchFunc (prepared t1))))
                        (snd (snd (getEC2TagsFetchFunc (prepared t1)))) = Some out"
      and r: "case out of
              Inl err \<Rightarrow> e = Some (TagsStartError err) \<and> scheduler c = NotStarted
                \<and> tagger c = fst (getEC2TagsFetchFunc (prepared t1))
            | Inr tags \<Rightarrow> e = None
                \<and> scheduler c = (if 0 \<le>s RefreshInterval t then Running else NotStarted)
                \<and> tagger c = (fst (getEC2TagsFetchFunc (prepared t1)))\<lparr>ec2TagsCache := tags\<rparr>"
      by blast
    have ns: "scheduler c = NotStarted" using r neg by (cases out) simp_all
    from f have "fetchFunc (fst (snd (getEC2TagsFetchFunc t1)))
                           (snd (snd (getEC2TagsFetchFunc t1))) = Some out"
      by (simp add: prepared_fetcher)
    with o ns md' show ?thesis by auto
  qed
  then have ns: "scheduler c = NotStarted" by simp
  from lifetime_not_started [OF ns, of acts]
  show "scheduler c = NotStarted" "fetches (lifetime c acts) = fetches c"
    "scheduler (lifetime c acts) = NotStarted" using ns by simp_all
  from ns_log show "case getEC2Metadata t of
                  (Some err, t1) \<Rightarrow> fetches c = []
                | (None, t1) \<Rightarrow>
                    (\<exists>out. fetchFunc (fst (snd (getEC2TagsFetchFunc t1)))
                                      (snd (snd (getEC2TagsFetchFunc t1))) = Some out
                           \<and> fetches c = [out])" by simp
next
  assume a: "fst (getEC2Metadata t) = None
              \<and> servesPages (fst (snd (getEC2TagsFetchFunc (snd (getEC2Metadata t)))))
                   \<lparr>Filters = snd (snd (getEC2TagsFetchFunc (snd (getEC2Metadata t)))),
                    NextToken = None\<rparr> pages final"
  obtain t1 where md: "getEC2Metadata t = (None, t1)"
    using a by (cases "getEC2Metadata t") auto
  with a have sp: "servesPages (fst (snd (getEC2TagsFetchFunc t1)))
                   \<lparr>Filters = snd (snd (getEC2TagsFetchFunc t1)), NextToken = None\<rparr> pages final"
    by simp
  from Start_fetch_returns [OF md assms(2) fetchFunc_pages [OF sp]]
  show "\<exists>e' c'. Start t = Some (e', c')
                    \<and> fetches c' = [case final of
                                       Inl err \<Rightarrow> Inl err
                                     | Inr page \<Rightarrow> Inr (flatUnion (map fst pages @ [page]))]"
    by simp
qed

text \<open>The theorem on the scenario with the interval -1 and the wildcard.\<close>

theorem negative_interval_single_fetch_witness:
  "RefreshInterval (configured (- 1) [] [''*''] scenarioAPI) <s 0
   \<and> EC2InstanceTagKeys (configured (- 1) [] [''*''] scenarioAPI) \<noteq> []
   \<and> fst (getEC2Metadata (configured (- 1) [] [''*''] scenarioAPI)) = None
   \<and> servesPages
        (fst (snd (getEC2TagsFetchFunc (snd (getEC2Metadata (configured (- 1) [] [''*''] scenarioAPI))))))
        \<lparr>Filters = snd (snd (getEC2TagsFetchFunc
                     (snd (getEC2Metadata (configured (- 1) [] [''*''] scenarioAPI))))),
         NextToken = None\<rparr>
        [] (Inr [\<lparr>Key = ''A'', Value = ''1''\<rparr>, \<lparr>Key = ''B'', Value = ''2''\<rparr>])
   \<and> (\<exists>c. Start (configured (- 1) [] [''*''] scenarioAPI) = Some (None, c)
          \<and> fetches c = [Inr (flatUnion [[\<lparr>Key = ''A'', Value = ''1''\<rparr>,
                                            \<lparr>Key = ''B'', Value = ''2''\<rparr>]])]
          \<and> scheduler c = NotStarted
          \<and> fetches (lifetime c [SchedulerEvent (Tick (Inr Map.empty)), ApplyCall [], StopCall,
                                  SchedulerEvent Done]) = fetches c
          \<and> scheduler (lifetime c [SchedulerEvent (Tick (Inr Map.empty)), ApplyCall [], StopCall,
                                    SchedulerEvent Done]) = NotStarted)"
proof -
  let ?t = "configured (- 1) [] [''*''] scenarioAPI"
  let ?acts = "[SchedulerEvent (Tick (Inr Map.empty)), ApplyCall [], StopCall, SchedulerEvent Done]"
  let ?page = "[\<lparr>Key = ''A'', Value = ''1''\<rparr>, \<lparr>Key = ''B'', Value = ''2''\<rparr>]"
  have h1: "RefreshInterval ?t <s 0" by (simp add: scenario_fields word_sless_alt)
  have h2: "EC2InstanceTagKeys ?t \<noteq> []" by (simp add: scenario_fields)
  have h3: "fst (getEC2Metadata ?t) = None" by (simp add: scenario_metadata)
  have cl: "fst (snd (getEC2TagsFetchFunc (snd (getEC2Metadata ?t)))) = scenarioAPI"
    unfolding scenario_metadata getEC2TagsFetchFunc_client
    by (simp add: configured_def scenarioProvider_def)
  have h5: "servesPages (fst (snd (getEC2TagsFetchFunc (snd (getEC2Metadata ?t)))))
        \<lparr>Filters = snd (snd (getEC2TagsFetchFunc (snd (getEC2Metadata ?t)))), NextToken = None\<rparr>
        [] (Inr ?page)"
    unfolding cl by (simp add: scenarioAPI_def)
  obtain c where h4: "Start ?t = Some (None, c)"
    using scenario_Start [of "[''*'']" "- 1" "[]"] by auto
  note main = negative_interval_single_fetch [OF h1 h2, of None c ?acts "[]" "Inr ?page"]
  from main h3 h5 h4 have "fetches c = [Inr (flatUnion [?page])]" by auto
  with main h1 h2 h3 h4 h5 show ?thesis by blast
qed

text \<open>
  The claim as written fails on a host where the identity service is not available:
  with the interval -1 and the wildcard \<^verbatim>\<open>Start\<close> returns the error of the identity
  and no fetch has been made.
\<close>

theorem no_identity_no_fetch_counterexample:
  "observe (Start (offEC2 (configured (- 1) [] [''*''] scenarioAPI)))
     = Some (Some (MetadataStartError NotOnEC2), None, NotStarted, 0)"
proof -
  let ?t = "offEC2 (configured (- 1) [] [''*''] scenarioAPI)"
  have "getEC2Metadata ?t = (Some NotOnEC2, ?t)"
    by (simp add: getEC2Metadata_def offEC2_def)
  from Start_metadata_error [OF this]
  show ?thesis by (simp add: observe_def offEC2_def configured_def)
qed

subsection \<open>C8: the done channel\<close>

text \<open>
  Claim C8, as amended.  After a successful \<^verbatim>\<open>Start\<close> of a Tagger whose \<^verbatim>\<open>done\<close>
  channel was nil, the channel exists if and only if at least one tag key is configured.
  The refresh goroutine has been started if and only if, in addition, the refresh
  interval that \<^verbatim>\<open>Start\<close> leaves in the Tagger is positive.  So the channel exists
  whenever the goroutine runs, and it is open then; it also exists, unused, when tag
  keys are configured and the interval is negative.
\<close>

theorem done_exists_iff_tag_keys:
  assumes "doneChan t = None" and "Start t = Some (None, c)"
  shows "(doneChan (tagger c) \<noteq> None \<longleftrightarrow> EC2InstanceTagKeys t \<noteq> [])
         \<and> (scheduler c = Running \<longleftrightarrow>
              EC2InstanceTagKeys t \<noteq> [] \<and> 0 <s RefreshInterval (tagger c))
         \<and> (scheduler c = Running \<longrightarrow> doneChan (tagger c) = Some ChanOpen)"
proof -
  obtain e1 t1 where md: "getEC2Metadata t = (e1, t1)" by (cases "getEC2Metadata t")
  have e1: "e1 = None"
  proof (cases e1)
    case None
    then show ?thesis .
  next
    case (Some err)
    with md Start_metadata_error [of t err t1] assms(2) show ?thesis by simp
  qed
  note md = md [unfolded e1]
  show ?thesis
  proof (cases "EC2InstanceTagKeys t = []")
    case True
    from Start_no_keys [OF md True] assms(2)
    have c: "c = \<lparr>tagger = t1, scheduler = NotStarted, fetches = []\<rparr>" by simp
    show ?thesis using True c getEC2Metadata_frame(4) [OF md] assms(1) by simp
  next
    case False
    from Start_keys_ok [OF md False assms(2)]
    obtain tags where sch: "scheduler c = (if 0 \<le>s RefreshInterval t then Running else NotStarted)"
      and tg: "tagger c = (fst (getEC2TagsFetchFunc (prepared t1)))\<lparr>ec2TagsCache := tags\<rparr>"
      by blast
    have d: "doneChan (tagger c) = Some ChanOpen"
      by (simp add: tg getEC2TagsFetchFunc_frame prepared_frame)
    have "RefreshInterval (tagger c) = RefreshInterval (prepared t1)"
      by (simp add: tg getEC2TagsFetchFunc_frame)
    then have r: "0 <s RefreshInterval (tagger c) \<longleftrightarrow> 0 \<le>s RefreshInterval t"
      using prepared_refreshing [of t1] getEC2Metadata_frame(3) [OF md] by simp
    show ?thesis using False d r sch by simp
  qed
qed

text \<open>The theorem on the scenario with the interval 0, hence the default, and the wildcard.\<close>

theorem done_exists_iff_tag_keys_witness:
  "doneChan (configured 0 [] [''*''] scenarioAPI) = None
   \<and> (\<exists>c. Start (configured 0 [] [''*''] scenarioAPI) = Some (None, c)
          \<and> (doneChan (tagger c) \<noteq> None)
          \<and> EC2InstanceTagKeys (configured 0 [] [''*''] scenarioAPI) \<noteq> []
          \<and> scheduler c = Running
          \<and> 0 <s RefreshInterval (tagger c)
          \<and> doneChan (tagger c) = Some ChanOpen)"
proof -
  let ?t = "configured 0 [] [''*''] scenarioAPI"
  have h1: "doneChan ?t = None" by (simp add: scenario_fields)
  obtain c where h2: "Start ?t = Some (None, c)"
    using scenario_Start [of "[''*'']" 0 "[]"] by auto
  have k: "EC2InstanceTagKeys ?t \<noteq> []" by (simp add: scenario_fields)
  from Start_keys_ok [OF scenario_metadata k h2]
  have "scheduler c = Running"
    by (auto simp: scenario_fields word_sle_eq)
  with done_exists_iff_tag_keys [OF h1 h2] h1 h2 k show ?thesis by blast
qed

text \<open>
  The claim as written fails on the scenario with the interval -1 and the wildcard:
  \<^verbatim>\<open>Start\<close> succeeds after one fetch, the channel exists and is open, and no goroutine
  has been started.
\<close>

theorem done_without_scheduler_counterexample:
  "observe (Start (configured (- 1) [] [''*''] scenarioAPI))
     = Some (None, Some ChanOpen, NotStarted, 1)"
proof -
  let ?t = "configured (- 1) [] [''*''] scenarioAPI"
  obtain c where s: "Start ?t = Some (None, c)"
    using scenario_Start [of "[''*'']" "- 1" "[]"] by auto
  have k: "EC2InstanceTagKeys ?t \<noteq> []" by (simp add: scenario_fields)
  from Start_keys_ok [OF scenario_metadata k s]
  obtain tags where f: "fetches c = [Inr tags]"
    and sch: "scheduler c = (if 0 \<le>s RefreshInterval ?t then Running else NotStarted)"
    and tg: "tagger c = (fst (getEC2TagsFetchFunc
                 (prepared (?t\<lparr>instanceId := ''I1'', instanceType := ''T1'',
                                 imageId := ''M1'', region := ''R1''\<rparr>))))\<lparr>ec2TagsCache := tags\<rparr>"
    by blast
  have d: "doneChan (tagger c) = Some ChanOpen"
    by (simp add: tg getEC2TagsFetchFunc_frame prepared_frame)
  have n: "scheduler c = NotStarted"
    using sch by (simp add: scenario_fields word_sle_eq)
  show ?thesis by (simp add: observe_def s d n f)
qed

subsection \<open>C9: the configured keys are rewritten in place\<close>

text \<open>
  Claim C9.  Let the identity be resolved, and let the configured tag keys be neither
  empty nor the wildcard.  When \<^verbatim>\<open>Start\<close> has returned, with or without error, the key
  list of the Tagger is the configured one with every AutoScalingGroupName replaced by
  aws:autoscaling:groupName: the length is the same and every other element is in its
  place.  Building the fetcher changes no other field of the Tagger.
\<close>

theorem Start_translates_keys_in_place:
  assumes "fst (getEC2Metadata t) = None" and "EC2InstanceTagKeys t \<noteq> []"
      and "EC2InstanceTagKeys t \<noteq> [''*'']" and "Start t = Some (e, c)"
  shows "EC2InstanceTagKeys (tagger c) =
           map (\<lambda>key. if key = ''AutoScalingGroupName'' then ''aws:autoscaling:groupName''
                       else key) (EC2InstanceTagKeys t)
         \<and> length (EC2InstanceTagKeys (tagger c)) = length (EC2InstanceTagKeys t)
         \<and> (\<forall>i < length (EC2InstanceTagKeys t).
               EC2InstanceTagKeys (tagger c) ! i =
                 (if EC2InstanceTagKeys t ! i = ''AutoScalingGroupName''
                  then ''aws:autoscaling:groupName'' else EC2InstanceTagKeys t ! i))
         \<and> fst (getEC2TagsFetchFunc t) =
             t\<lparr>EC2InstanceTagKeys :=
                  map (\<lambda>key. if key = ''AutoScalingGroupName'' then ''aws:autoscaling:groupName''
                              else key) (EC2InstanceTagKeys t)\<rparr>"
proof -
  obtain t1 where md: "getEC2Metadata t = (None, t1)"
    using assms(1) by (cases "getEC2Metadata t") auto
  have k: "EC2InstanceTagKeys (tagger c) =
             map (\<lambda>key. if key = ''AutoScalingGroupName'' then ''aws:autoscaling:groupName''
                         else key) (EC2InstanceTagKeys t)"
    using Start_keys_tagger_keys [OF md assms(2) assms(4)] assms(3)
    by (simp add: translateKey_literal)
  have f: "fst (getEC2TagsFetchFunc t) =
             t\<lparr>EC2InstanceTagKeys :=
                  map (\<lambda>key. if key = ''AutoScalingGroupName'' then ''aws:autoscaling:groupName''
                              else key) (EC2InstanceTagKeys t)\<rparr>"
    using assms(3) by (simp add: getEC2TagsFetchFunc_tagger translateKey_literal)
  from k f show ?thesis by simp
qed

text \<open>The theorem on the scenario with the keys Name and AutoScalingGroupName.\<close>

theorem Start_translates_keys_in_place_witness:
  "fst (getEC2Metadata (configured Second [] [''Name'', ''AutoScalingGroupName''] scenarioAPI)) = None
   \<and> EC2InstanceTagKeys (configured Second [] [''Name'', ''AutoScalingGroupName''] scenarioAPI) \<noteq> []
   \<and> EC2InstanceTagKeys (configured Second [] [''Name'', ''AutoScalingGroupName''] scenarioAPI) \<noteq> [''*'']
   \<and> (\<exists>c. Start (configured Second [] [''Name'', ''AutoScalingGroupName''] scenarioAPI) = Some (None, c)
          \<and> EC2InstanceTagKeys (tagger c) = [''Name'', ''aws:autoscaling:groupName''])"
proof -
  let ?t = "configured Second [] [''Name'', ''AutoScalingGroupName''] scenarioAPI"
  have h1: "fst (getEC2Metadata ?t) = None" by (simp add: scenario_metadata)
  have h2: "EC2InstanceTagKeys ?t \<noteq> []" by (simp add: scenario_fields)
  have h3: "EC2InstanceTagKeys ?t \<noteq> [''*'']" by (simp add: scenario_fields)
  obtain c where h4: "Start ?t = Some (None, c)"
    using scenario_Start [of "[''Name'', ''AutoScalingGroupName'']" Second "[]"] by auto
  from Start_translates_keys_in_place [OF h1 h2 h3 h4]
  have "EC2InstanceTagKeys (tagger c) = [''Name'', ''aws:autoscaling:groupName'']"
    by (simp add: scenario_fields)
  with h1 h2 h3 h4 show ?thesis by blast
qed

subsection \<open>C10: Stop\<close>

text \<open>
  Claim C10.  On a Tagger without \<^verbatim>\<open>done\<close> channel and without tag keys \<^verbatim>\<open>Start\<close>
  returns and creates no channel, and \<^verbatim>\<open>Stop\<close> afterwards returns without panic and
  leaves the Tagger as it is.  On a Tagger whose channel is open \<^verbatim>\<open>Stop\<close> closes the
  channel and changes nothing else; such is the Tagger after a successful \<^verbatim>\<open>Start\<close>
  with tag keys.
\<close>

theorem Stop_after_Start:
  "(doneChan t = None \<and> EC2InstanceTagKeys t = [] \<longrightarrow>
      (\<exists>e c. Start t = Some (e, c) \<and> doneChan (tagger c) = None
              \<and> Stop (tagger c) = Inr (tagger c)))
   \<and> (doneChan u = Some ChanOpen \<longrightarrow>
        Stop u = Inr (u\<lparr>doneChan := Some ChanClosed\<rparr>))
   \<and> (EC2InstanceTagKeys v \<noteq> [] \<and> Start v = Some (None, c) \<longrightarrow>
        doneChan (tagger c) = Some ChanOpen
        \<and> Stop (tagger c) = Inr ((tagger c)\<lparr>doneChan := Some ChanClosed\<rparr>))"
proof (intro conjI impI)
  assume a: "doneChan t = None \<and> EC2InstanceTagKeys t = []"
  from Start_without_keys [of t] a
  obtain e c where s: "Start t = Some (e, c)" and d: "doneChan (tagger c) = None" by auto
  from s d Stop_nil [OF d]
  show "\<exists>e c. Start t = Some (e, c) \<and> doneChan (tagger c) = None
              \<and> Stop (tagger c) = Inr (tagger c)" by blast
next
  assume "doneChan u = Some ChanOpen"
  then show "Stop u = Inr (u\<lparr>doneChan := Some ChanClosed\<rparr>)" by (rule Stop_open)
next
  assume a: "EC2InstanceTagKeys v \<noteq> [] \<and> Start v = Some (None, c)"
  obtain e1 t1 where md: "getEC2Metadata v = (e1, t1)" by (cases "getEC2Metadata v")
  have "e1 = None"
  proof (cases e1)
    case None
    then show ?thesis .
  next
    case (Some err)
    with md Start_metadata_error [of v err t1] a show ?thesis by simp
  qed
  with md have md': "getEC2Metadata v = (None, t1)" by simp
  from Start_keys_ok [OF md' conjunct1 [OF a] conjunct2 [OF a]]
  obtain tags where tg: "tagger c = (fst (getEC2TagsFetchFunc (prepared t1)))\<lparr>ec2TagsCache := tags\<rparr>"
    by blast
  show d: "doneChan (tagger c) = Some ChanOpen"
    by (simp add: tg getEC2TagsFetchFunc_frame prepared_frame)
  show "Stop (tagger c) = Inr ((tagger c)\<lparr>doneChan := Some ChanClosed\<rparr>)"
    by (rule Stop_open [OF d])
qed

text \<open>The theorem on the scenario without tag keys, and on the scenario with the wildcard.\<close>

theorem Stop_after_Start_witness:
  "doneChan (configured Second [mdKeyInstanceId] [] scenarioAPI) = None
   \<and> EC2InstanceTagKeys (configured Second [mdKeyInstanceId] [] scenarioAPI) = []
   \<and> (\<exists>e c. Start (configured Second [mdKeyInstanceId] [] scenarioAPI) = Some (e, c)
            \<and> doneChan (tagger c) = None \<and> Stop (tagger c) = Inr (tagger c))
   \<and> doneChan ((configured Second [] [''*''] scenarioAPI)\<lparr>doneChan := Some ChanOpen\<rparr>)
       = Some ChanOpen
   \<and> Stop ((configured Second [] [''*''] scenarioAPI)\<lparr>doneChan := Some ChanOpen\<rparr>)
       = Inr ((configured Second [] [''*''] scenarioAPI)\<lparr>doneChan := Some ChanClosed\<rparr>)
   \<and> EC2InstanceTagKeys (configured Second [] [''*''] scenarioAPI) \<noteq> []
   \<and> (\<exists>c. Start (configured Second [] [''*''] scenarioAPI) = Some (None, c)
          \<and> doneChan (tagger c) = Some ChanOpen
          \<and> Stop (tagger c) = Inr ((tagger c)\<lparr>doneChan := Some ChanClosed\<rparr>))"
proof -
  let ?t = "configured Second [mdKeyInstanceId] [] scenarioAPI"
  let ?v = "configured Second [] [''*''] scenarioAPI"
  let ?u = "?v\<lparr>doneChan := Some ChanOpen\<rparr>"
  have t1: "doneChan ?t = None" and t2: "EC2InstanceTagKeys ?t = []"
    by (simp_all add: scenario_fields)
  have u1: "doneChan ?u = Some ChanOpen" by simp
  have v1: "EC2InstanceTagKeys ?v \<noteq> []" by (simp add: scenario_fields)
  obtain c where v2: "Start ?v = Some (None, c)"
    using scenario_Start [of "[''*'']" Second "[]"] by auto
  from Stop_after_Start [of ?t ?u ?v c] t1 t2 u1 v1 v2
  show ?thesis by auto
qed

end
